theory Spec2Isabelle
  imports Complex_Main
begin

section \<open>JavaScript values and the operations the program applies to them\<close>

text \<open>
  The policy engine (\<^verbatim>\<open>policy.js\<close>) and the authentication handler of the server
  (\<^verbatim>\<open>POST /a2a/authenticate\<close>) work on values decoded from JSON: the claims of a
  credential, the body of a request. A value is therefore a JSON value or \<^verbatim>\<open>undefined\<close>
  (the result of reading a property that is not there). Numbers are the finite ones, as
  rationals (\<^verbatim>\<open>-0\<close> is \<open>0\<close>). An object is the list of its own properties, in
  the order \<^verbatim>\<open>Object.entries\<close> enumerates them; the first entry of a name is the one
  that counts. Strings are lists of characters.
\<close>

datatype jsval =
    JUndefined
  | JNull
  | JBool bool
  | JNum rat
  | JStr string
  | JArr "jsval list"
  | JObj "(string \<times> jsval) list"

text \<open>
  What the runtime supplies: the clock (\<^verbatim>\<open>Date.now()\<close>, in milliseconds), the date
  parser (\<^verbatim>\<open>Date.parse\<close>, where \<open>None\<close> is \<^verbatim>\<open>NaN\<close>), the printing of the
  numbers that are not integers below \<open>10^21\<close>, and the names an array inherits from
  \<^verbatim>\<open>Array.prototype\<close> (they grow with the version of the language).
\<close>

record runtime =
  now :: int
  dateParse :: "string \<Rightarrow> int option"
  numToString :: "rat \<Rightarrow> string"
  arrayPrototypeKeys :: "string list"

text \<open>
  What a call can throw. \<open>TypeError\<close> is the runtime's: reading a property of
  \<^verbatim>\<open>null\<close> or \<^verbatim>\<open>undefined\<close>, calling what is not a function, \<^verbatim>\<open>in\<close> on a
  primitive, converting an object with no usable \<^verbatim>\<open>toString\<close>. The others are the
  errors of the authentication handler, introduced below with the violations they carry.
\<close>

datatype violation =
    MissingVCType "string list"
    \<comment> \<open>required credential type missing; carries \<^verbatim>\<open>requiredVCTypes\<close>\<close>
  | DisallowedAction string
    \<comment> \<open>action not allowed; carries the action as printed in the message\<close>
  | Expired int rat
    \<comment> \<open>credential too old; carries \<^verbatim>\<open>Math.floor(ageInSeconds)\<close> and \<^verbatim>\<open>maxVCAge\<close>\<close>
  | MissingField string
    \<comment> \<open>required field missing; carries the key\<close>

datatype exn =
    TypeError
  | VerifyError string
    \<comment> \<open>thrown by \<^verbatim>\<open>verifyPresentation\<close>, with its message\<close>
  | NoCredential
  | RevokedError string
    \<comment> \<open>credential revoked; carries the reason as printed in the message\<close>
  | PolicyViolation "violation list"
  | NotAuthorized

definition bind_exn :: "exn + 'a \<Rightarrow> ('a \<Rightarrow> exn + 'b) \<Rightarrow> exn + 'b" where
  "bind_exn m f = (case m of Inl e \<Rightarrow> Inl e | Inr v \<Rightarrow> f v)"

fun truthy :: "jsval \<Rightarrow> bool" where
  "truthy JUndefined = False"
| "truthy JNull = False"
| "truthy (JBool b) = b"
| "truthy (JNum n) = (n \<noteq> 0)"
| "truthy (JStr s) = (s \<noteq> [])"
| "truthy (JArr xs) = True"
| "truthy (JObj kvs) = True"

fun nullish :: "jsval \<Rightarrow> bool" where
  "nullish JUndefined = True"
| "nullish JNull = True"
| "nullish v = False"

text \<open>
  Reading a property by a fixed name. The names the program reads (\<^verbatim>\<open>type\<close>,
  \<^verbatim>\<open>vc\<close>, \<^verbatim>\<open>credentialSubject\<close>, \<^verbatim>\<open>taskLog\<close>, \<^verbatim>\<open>action\<close>, \<^verbatim>\<open>issuedAt\<close>,
  \<^verbatim>\<open>id\<close>, \<^verbatim>\<open>verifiablePresentation\<close>, \<^verbatim>\<open>verifiableCredential\<close>) are defined on
  no built-in prototype, so on anything but an object holding the name the read gives
  \<^verbatim>\<open>undefined\<close>. \<open>js_prop\<close> is the read on a value known not to be
  \<^verbatim>\<open>null\<close>/\<^verbatim>\<open>undefined\<close>, \<open>get\<close> is \<^verbatim>\<open>v.k\<close>, \<open>opt_get\<close> is \<^verbatim>\<open>v?.k\<close>.
\<close>

fun js_prop :: "jsval \<Rightarrow> string \<Rightarrow> jsval" where
  "js_prop (JObj kvs) k = (case map_of kvs k of Some v \<Rightarrow> v | None \<Rightarrow> JUndefined)"
| "js_prop v k = JUndefined"

definition get :: "jsval \<Rightarrow> string \<Rightarrow> exn + jsval" where
  "get v k = (if nullish v then Inl TypeError else Inr (js_prop v k))"

definition opt_get :: "jsval \<Rightarrow> string \<Rightarrow> jsval" where
  "opt_get v k = (if nullish v then JUndefined else js_prop v k)"

text \<open>\<^verbatim>\<open>a?.k\<close> and \<^verbatim>\<open>a || b\<close> where evaluating \<open>a\<close> or \<open>b\<close> may throw.\<close>

definition opt_chain :: "exn + jsval \<Rightarrow> string \<Rightarrow> exn + jsval" where
  "opt_chain a k = bind_exn a (\<lambda>v. Inr (opt_get v k))"

definition or_else :: "exn + jsval \<Rightarrow> exn + jsval \<Rightarrow> exn + jsval" where
  "or_else a b = bind_exn a (\<lambda>v. if truthy v then Inr v else b)"

text \<open>\<^verbatim>\<open>v?.[0]\<close>: the first element of an array, the first character of a string.\<close>

fun opt_index0 :: "jsval \<Rightarrow> jsval" where
  "opt_index0 (JArr xs) = (case xs of [] \<Rightarrow> JUndefined | x # _ \<Rightarrow> x)"
| "opt_index0 (JStr s) = (case s of [] \<Rightarrow> JUndefined | c # _ \<Rightarrow> JStr [c])"
| "opt_index0 (JObj kvs) = js_prop (JObj kvs) ''0''"
| "opt_index0 v = JUndefined"

subsection \<open>Conversion to a string\<close>

fun show_nat :: "nat \<Rightarrow> string" where
  "show_nat n =
     (if n < 10 then [''0123456789'' ! n]
      else show_nat (n div 10) @ [''0123456789'' ! (n mod 10)])"

declare show_nat.simps [simp del]

fun join :: "string \<Rightarrow> string list \<Rightarrow> string" where
  "join sep [] = []"
| "join sep [s] = s"
| "join sep (s # t # ss) = s @ sep @ join sep (t # ss)"

text \<open>
  \<^verbatim>\<open>ToString\<close>, as a template literal and a computed property key apply it. An
  object decoded from JSON holds no function, so one with a property named
  \<^verbatim>\<open>toString\<close> of its own cannot be converted and the conversion throws; any other
  object prints as \<^verbatim>\<open>[object Object]\<close>. An array prints its elements joined by
  commas, \<^verbatim>\<open>null\<close> and \<^verbatim>\<open>undefined\<close> as nothing.
\<close>

definition num_to_string :: "runtime \<Rightarrow> rat \<Rightarrow> string" where
  "num_to_string rt r =
     (if r = of_int \<lfloor>r\<rfloor> \<and> \<bar>r\<bar> < 10 ^ 21
      then (if r < 0 then ''-'' else '''') @ show_nat (nat \<bar>\<lfloor>r\<rfloor>\<bar>)
      else numToString rt r)"

fun to_string :: "runtime \<Rightarrow> jsval \<Rightarrow> exn + string"
  and elems_to_strings :: "runtime \<Rightarrow> jsval list \<Rightarrow> exn + string list" where
  "to_string rt JUndefined = Inr ''undefined''"
| "to_string rt JNull = Inr ''null''"
| "to_string rt (JBool b) = Inr (if b then ''true'' else ''false'')"
| "to_string rt (JNum r) = Inr (num_to_string rt r)"
| "to_string rt (JStr s) = Inr s"
| "to_string rt (JArr xs) = bind_exn (elems_to_strings rt xs) (\<lambda>ss. Inr (join '','' ss))"
| "to_string rt (JObj kvs) =
     (if ''toString'' \<in> set (map fst kvs) then Inl TypeError else Inr ''[object Object]'')"
| "elems_to_strings rt [] = Inr []"
| "elems_to_strings rt (x # xs) =
     bind_exn (if nullish x then Inr [] else to_string rt x) (\<lambda>s.
     bind_exn (elems_to_strings rt xs) (\<lambda>ss. Inr (s # ss)))"

text \<open>
  \<^verbatim>\<open>new Date(v).getTime()\<close>: a string is parsed, anything else is converted to a
  primitive first and then, when that is not a string, to a number of milliseconds,
  which is cut to an integer and is \<^verbatim>\<open>NaN\<close> (\<open>None\<close>) beyond the range of dates.
\<close>

definition time_clip :: "rat \<Rightarrow> int option" where
  "time_clip r =
     (if \<bar>r\<bar> > 8640000000000000 then None
      else Some (if r \<ge> 0 then \<lfloor>r\<rfloor> else \<lceil>r\<rceil>))"

fun date_time :: "runtime \<Rightarrow> jsval \<Rightarrow> exn + int option" where
  "date_time rt JUndefined = Inr None"
| "date_time rt JNull = Inr (Some 0)"
| "date_time rt (JBool b) = Inr (Some (if b then 1 else 0))"
| "date_time rt (JNum r) = Inr (time_clip r)"
| "date_time rt (JStr s) = Inr (dateParse rt s)"
| "date_time rt v = bind_exn (to_string rt v) (\<lambda>s. Inr (dateParse rt s))"


subsection \<open>Membership tests\<close>

fun is_prefix_of :: "string \<Rightarrow> string \<Rightarrow> bool" where
  "is_prefix_of [] ys = True"
| "is_prefix_of (x # xs) [] = False"
| "is_prefix_of (x # xs) (y # ys) = (x = y \<and> is_prefix_of xs ys)"

fun str_includes :: "string \<Rightarrow> string \<Rightarrow> bool" where
  "str_includes [] sub = (sub = [])"
| "str_includes (c # cs) sub = (is_prefix_of sub (c # cs) \<or> str_includes cs sub)"

text \<open>
  \<^verbatim>\<open>v.includes(s)\<close> for a string \<open>s\<close>: an array is searched for an element equal
  to it, a string for an occurrence of it; nothing else has the method.
\<close>

fun js_includes :: "jsval \<Rightarrow> string \<Rightarrow> exn + bool" where
  "js_includes (JArr xs) s = Inr (JStr s \<in> set xs)"
| "js_includes (JStr t) s = Inr (str_includes t s)"
| "js_includes v s = Inl TypeError"

text \<open>The names every object inherits from \<^verbatim>\<open>Object.prototype\<close>.\<close>

definition object_prototype_keys :: "string list" where
  "object_prototype_keys =
     [''constructor'', ''hasOwnProperty'', ''isPrototypeOf'', ''propertyIsEnumerable'',
      ''toLocaleString'', ''toString'', ''valueOf'', ''__proto__'',
      ''__defineGetter__'', ''__defineSetter__'', ''__lookupGetter__'', ''__lookupSetter__'']"

text \<open>\<^verbatim>\<open>key in v\<close>: own and inherited names; a primitive on the right throws.\<close>

fun js_in :: "runtime \<Rightarrow> string \<Rightarrow> jsval \<Rightarrow> exn + bool" where
  "js_in rt key (JObj kvs) =
     Inr (key \<in> set (map fst kvs) \<or> key \<in> set object_prototype_keys)"
| "js_in rt key (JArr xs) =
     Inr (key \<in> set (map show_nat [0..<length xs]) \<or> key = ''length''
          \<or> key \<in> set (arrayPrototypeKeys rt) \<or> key \<in> set object_prototype_keys)"
| "js_in rt key v = Inl TypeError"

text \<open>The names \<^verbatim>\<open>Object.entries\<close> runs through: each own name once.\<close>

fun own_keys :: "(string \<times> jsval) list \<Rightarrow> string list" where
  "own_keys [] = []"
| "own_keys ((k, v) # kvs) = k # filter (\<lambda>k'. k' \<noteq> k) (own_keys kvs)"

section \<open>The policy engine (\<^verbatim>\<open>policy.js\<close>, class \<^verbatim>\<open>PolicyValidator\<close>)\<close>

record policies =
  requiredVCTypes :: "string list"
  allowedActions :: "string list"
  maxVCAge :: rat

text \<open>The policies the constructor sets.\<close>

definition default_policies :: policies where
  "default_policies =
     \<lparr>requiredVCTypes = [''TaskLogCredential''],
      allowedActions = [''OrderPizza'', ''QueryStatus'', ''UpdateProfile''],
      maxVCAge = 3600\<rparr>"

record revocation_status =
  revoked :: bool
  reason :: jsval

text \<open>
  \<^verbatim>\<open>checkRevocationStatus\<close> writes its argument into a log line, which converts it
  to a string, and then answers that the credential is not revoked.
\<close>

definition checkRevocationStatus :: "runtime \<Rightarrow> jsval \<Rightarrow> exn + revocation_status" where
  "checkRevocationStatus rt vcId =
     bind_exn (to_string rt vcId) (\<lambda>logged. Inr \<lparr>revoked = False, reason = JNull\<rparr>)"

record compliance =
  compliant :: bool
  errors :: "violation list"

text \<open>\<^verbatim>\<open>claims.type || claims.vc?.type || []\<close>\<close>

definition vcTypes_of :: "jsval \<Rightarrow> exn + jsval" where
  "vcTypes_of claims =
     or_else (get claims ''type'')
       (or_else (opt_chain (get claims ''vc'') ''type'') (Inr (JArr [])))"

text \<open>\<^verbatim>\<open>requiredVCTypes.some(required => vcTypes.includes(required))\<close>\<close>

fun some_includes :: "string list \<Rightarrow> jsval \<Rightarrow> exn + bool" where
  "some_includes [] vcTypes = Inr False"
| "some_includes (required # rest) vcTypes =
     bind_exn (js_includes vcTypes required) (\<lambda>found.
       if found then Inr True else some_includes rest vcTypes)"

text \<open>\<^verbatim>\<open>claims.credentialSubject || claims.vc?.credentialSubject || {}\<close>\<close>

definition credentialSubject_of :: "jsval \<Rightarrow> exn + jsval" where
  "credentialSubject_of claims =
     or_else (get claims ''credentialSubject'')
       (or_else (opt_chain (get claims ''vc'') ''credentialSubject'') (Inr (JObj [])))"

text \<open>\<^verbatim>\<open>credentialSubject.taskLog?.action\<close>\<close>

definition taskAction_of :: "jsval \<Rightarrow> exn + jsval" where
  "taskAction_of credentialSubject = opt_chain (get credentialSubject ''taskLog'') ''action''"

text \<open>
  The four checks of \<^verbatim>\<open>checkPolicyCompliance\<close>. Each takes the violations collected
  so far and returns them with its own appended (\<^verbatim>\<open>errors.push\<close>).
\<close>

definition check_type :: "policies \<Rightarrow> jsval \<Rightarrow> violation list \<Rightarrow> exn + violation list" where
  "check_type pol vcTypes errs =
     bind_exn (some_includes (requiredVCTypes pol) vcTypes) (\<lambda>hasRequiredType.
       if \<not> hasRequiredType then Inr (errs @ [MissingVCType (requiredVCTypes pol)])
       else Inr errs)"

definition check_action ::
  "policies \<Rightarrow> runtime \<Rightarrow> jsval \<Rightarrow> violation list \<Rightarrow> exn + violation list" where
  "check_action pol rt taskAction errs =
     (if truthy taskAction
         \<and> \<not> (case taskAction of JStr s \<Rightarrow> s \<in> set (allowedActions pol) | _ \<Rightarrow> False)
      then bind_exn (to_string rt taskAction) (\<lambda>s. Inr (errs @ [DisallowedAction s]))
      else Inr errs)"

text \<open>
  The age is \<^verbatim>\<open>(Date.now() - new Date(issuedAt).getTime()) / 1000\<close>. The difference
  is an integer of milliseconds; the quotient is exact here, where the program has the
  nearest double. For every date the runtime can represent the two have the same floor,
  and they compare alike with a \<^verbatim>\<open>maxVCAge\<close> that is a whole number of milliseconds,
  as \<open>3600\<close> is. An invalid date gives \<^verbatim>\<open>NaN\<close>, which is not greater than anything.
\<close>

definition check_age ::
  "policies \<Rightarrow> runtime \<Rightarrow> jsval \<Rightarrow> violation list \<Rightarrow> exn + violation list" where
  "check_age pol rt issuedAt errs =
     (if truthy issuedAt
      then bind_exn (date_time rt issuedAt) (\<lambda>time.
        case time of
          None \<Rightarrow> Inr errs
        | Some t \<Rightarrow>
            (let ageInSeconds = (of_int (now rt - t) :: rat) / 1000
             in if ageInSeconds > maxVCAge pol
                then Inr (errs @ [Expired \<lfloor>ageInSeconds\<rfloor> (maxVCAge pol)])
                else Inr errs))
      else Inr errs)"

fun schema_loop ::
  "runtime \<Rightarrow> string list \<Rightarrow> jsval \<Rightarrow> violation list \<Rightarrow> exn + violation list" where
  "schema_loop rt [] credentialSubject errs = Inr errs"
| "schema_loop rt (key # rest) credentialSubject errs =
     bind_exn (js_in rt key credentialSubject) (\<lambda>present.
       schema_loop rt rest credentialSubject
         (if \<not> present then errs @ [MissingField key] else errs))"

text \<open>
  \<open>requiredSchema\<close> is an object or left out (\<open>None\<close>), as the one caller and the
  spec have it.
\<close>

definition check_schema ::
  "runtime \<Rightarrow> (string \<times> jsval) list option \<Rightarrow> jsval \<Rightarrow> violation list
     \<Rightarrow> exn + violation list" where
  "check_schema rt requiredSchema credentialSubject errs =
     (case requiredSchema of
        None \<Rightarrow> Inr errs
      | Some entries \<Rightarrow> schema_loop rt (own_keys entries) credentialSubject errs)"

definition checkPolicyCompliance ::
  "policies \<Rightarrow> runtime \<Rightarrow> jsval \<Rightarrow> (string \<times> jsval) list option \<Rightarrow> exn + compliance" where
  "checkPolicyCompliance pol rt claims requiredSchema =
     bind_exn (vcTypes_of claims) (\<lambda>vcTypes.
     bind_exn (check_type pol vcTypes []) (\<lambda>errors1.
     bind_exn (credentialSubject_of claims) (\<lambda>credentialSubject.
     bind_exn (taskAction_of credentialSubject) (\<lambda>taskAction.
     bind_exn (check_action pol rt taskAction errors1) (\<lambda>errors2.
     bind_exn (get credentialSubject ''issuedAt'') (\<lambda>issuedAt.
     bind_exn (check_age pol rt issuedAt errors2) (\<lambda>errors3.
     bind_exn (check_schema rt requiredSchema credentialSubject errors3) (\<lambda>errors4.
       if length errors4 > 0 then Inr \<lparr>compliant = False, errors = errors4\<rparr>
       else Inr \<lparr>compliant = True, errors = []\<rparr>))))))))"

subsection \<open>\<^verbatim>\<open>authorize\<close> and \<^verbatim>\<open>generateAuthToken\<close>\<close>

record grant =
  authorized :: bool
  holderDID :: jsval
  action :: jsval
  permissions :: "string list"
  expiresIn :: int

definition permissions_table :: "(string \<times> string list) list" where
  "permissions_table =
     [(''OrderPizza'', [''read:menu'', ''write:order'']),
      (''QueryStatus'', [''read:status'']),
      (''UpdateProfile'', [''write:profile''])]"

text \<open>
  \<^verbatim>\<open>permissions[taskAction]\<close>: the action is converted to a property key and looked
  up in the object literal, which finds the three names of its own, and also what every
  object inherits (a function, or for \<^verbatim>\<open>__proto__\<close> the prototype itself).
\<close>

datatype member = Own "string list" | Inherited | Absent

definition permissions_member :: "string \<Rightarrow> member" where
  "permissions_member key =
     (case map_of permissions_table key of
        Some ps \<Rightarrow> Own ps
      | None \<Rightarrow> if key \<in> set object_prototype_keys then Inherited else Absent)"

text \<open>
  \<^verbatim>\<open>permissions[taskAction] || []\<close>, then \<^verbatim>\<open>grantedPermissions.join(', ')\<close> for the
  log line: an inherited member is truthy and has no \<^verbatim>\<open>join\<close>, so the call throws.
\<close>

definition grantedPermissions_of :: "member \<Rightarrow> exn + string list" where
  "grantedPermissions_of m =
     (case m of Own ps \<Rightarrow> Inr ps | Inherited \<Rightarrow> Inl TypeError | Absent \<Rightarrow> Inr [])"

definition authorize :: "runtime \<Rightarrow> jsval \<Rightarrow> exn + grant" where
  "authorize rt claims =
     bind_exn (credentialSubject_of claims) (\<lambda>credentialSubject.
     bind_exn (taskAction_of credentialSubject) (\<lambda>taskAction.
     bind_exn (get credentialSubject ''id'') (\<lambda>holder.
     bind_exn (to_string rt taskAction) (\<lambda>key.
     bind_exn (grantedPermissions_of (permissions_member key)) (\<lambda>grantedPermissions.
       Inr \<lparr>authorized = True, holderDID = holder, action = taskAction,
            permissions = grantedPermissions, expiresIn = 3600\<rparr>)))))"

text \<open>
  The access token is the base64 of the JSON text of \<^verbatim>\<open>{did, action, permissions, exp}\<close>;
  the model keeps the four values and leaves the encoding out.
\<close>

record token_payload =
  did :: jsval
  token_action :: jsval
  token_permissions :: "string list"
  exp :: int

record auth_token =
  tokenType :: string
  accessToken :: token_payload
  token_expiresIn :: int

definition generateAuthToken :: "runtime \<Rightarrow> grant \<Rightarrow> auth_token" where
  "generateAuthToken rt authResult =
     \<lparr>tokenType = ''Bearer'',
      accessToken =
        \<lparr>did = holderDID authResult, token_action = action authResult,
         token_permissions = permissions authResult,
         exp = now rt div 1000 + expiresIn authResult\<rparr>,
      token_expiresIn = expiresIn authResult\<rparr>"


section \<open>The authentication handler (\<^verbatim>\<open>POST /a2a/authenticate\<close>)\<close>

text \<open>
  The handler calls, in the order of its text, \<^verbatim>\<open>verifyPresentation\<close> (of the library
  \<^verbatim>\<open>did-jwt-vc\<close>) and four methods of the policy validator. To speak about that
  order the model records each call as an event: a step returns the events of the calls
  it made together with its value or the exception that ended it.
\<close>

datatype event =
    EvVerifyPresentation
  | EvCheckRevocation
  | EvCheckCompliance
  | EvAuthorize
  | EvGenerateToken

type_synonym 'a step = "event list \<times> (exn + 'a)"

definition call :: "event \<Rightarrow> exn + 'a \<Rightarrow> 'a step" where
  "call ev r = ([ev], r)"

definition throw :: "exn \<Rightarrow> 'a step" where
  "throw e = ([], Inl e)"

definition eval :: "exn + 'a \<Rightarrow> 'a step" where
  "eval r = ([], r)"

definition bind_step :: "'a step \<Rightarrow> ('a \<Rightarrow> 'b step) \<Rightarrow> 'b step" where
  "bind_step m f =
     (case m of
        (tr, Inl e) \<Rightarrow> (tr, Inl e)
      | (tr, Inr v) \<Rightarrow> (case f v of (tr', r) \<Rightarrow> (tr @ tr', r)))"

text \<open>
  The three responses: 401 when the body has no \<^verbatim>\<open>vp\<close>, 200 with \<^verbatim>\<open>clientDid\<close>
  and \<^verbatim>\<open>authToken\<close>, 403 with the message of whatever the \<^verbatim>\<open>try\<close> block threw.
\<close>

datatype response =
    Status401
  | Status200 jsval token_payload
  | Status403 exn

text \<open>
  \<^verbatim>\<open>verifiedVP.verifiablePresentation?.verifiableCredential?.[0]
    || verifiedVP.verifiableCredential?.[0]\<close>
\<close>

definition credential_of :: "jsval \<Rightarrow> exn + jsval" where
  "credential_of verifiedVP =
     or_else
       (bind_exn (opt_chain (get verifiedVP ''verifiablePresentation'') ''verifiableCredential'')
          (\<lambda>vcs. Inr (opt_index0 vcs)))
       (bind_exn (get verifiedVP ''verifiableCredential'') (\<lambda>vcs. Inr (opt_index0 vcs)))"

text \<open>
  The \<^verbatim>\<open>try\<close> block. \<open>verify\<close> stands for \<^verbatim>\<open>verifyPresentation(_, didResolver)\<close>,
  which returns the verified presentation or throws an error with a message.
  \<open>revocationCheck\<close> is the validator's revocation check, a contract point that the
  repository fills with \<open>checkRevocationStatus\<close>; like every call in the block it
  may throw.
\<close>

definition try_block ::
  "(jsval \<Rightarrow> exn + revocation_status) \<Rightarrow> (jsval \<Rightarrow> string + jsval) \<Rightarrow> policies \<Rightarrow> runtime
     \<Rightarrow> jsval \<Rightarrow> response step" where
  "try_block revocationCheck verify pol rt vpJwt =
     bind_step (call EvVerifyPresentation
                  (case verify vpJwt of Inl m \<Rightarrow> Inl (VerifyError m) | Inr v \<Rightarrow> Inr v))
       (\<lambda>verifiedVP.
     bind_step (eval (credential_of verifiedVP)) (\<lambda>credential.
     bind_step (if \<not> truthy credential then throw NoCredential else eval (Inr ())) (\<lambda>_.
     bind_step (call EvCheckRevocation (revocationCheck credential))
       (\<lambda>revocationStatus.
     bind_step (if revoked revocationStatus
                then bind_step (eval (to_string rt (reason revocationStatus)))
                       (\<lambda>s. throw (RevokedError s))
                else eval (Inr ())) (\<lambda>_.
     bind_step (call EvCheckCompliance (checkPolicyCompliance pol rt credential None))
       (\<lambda>complianceResult.
     bind_step (if \<not> compliant complianceResult
                then throw (PolicyViolation (errors complianceResult))
                else eval (Inr ())) (\<lambda>_.
     bind_step (call EvAuthorize (authorize rt credential)) (\<lambda>authResult.
     bind_step (if \<not> authorized authResult then throw NotAuthorized else eval (Inr ()))
       (\<lambda>_.
     bind_step (call EvGenerateToken (Inr (generateAuthToken rt authResult)))
       (\<lambda>authToken.
     bind_step (eval (or_else (opt_chain (get credential ''credentialSubject'') ''id'')
                        (Inr (holderDID authResult)))) (\<lambda>clientDid.
       eval (Inr (Status200 clientDid (accessToken authToken))))))))))))))"

definition authenticate_with ::
  "(jsval \<Rightarrow> exn + revocation_status) \<Rightarrow> (jsval \<Rightarrow> string + jsval) \<Rightarrow> policies \<Rightarrow> runtime
     \<Rightarrow> jsval \<Rightarrow> event list \<times> response" where
  "authenticate_with revocationCheck verify pol rt vpJwt =
     (if \<not> truthy vpJwt then ([], Status401)
      else case try_block revocationCheck verify pol rt vpJwt of
             (tr, Inl e) \<Rightarrow> (tr, Status403 e)
           | (tr, Inr resp) \<Rightarrow> (tr, resp))"

text \<open>The handler as the server has it: \<open>vpJwt\<close> is \<^verbatim>\<open>req.body.vp\<close>.\<close>

definition authenticate ::
  "(jsval \<Rightarrow> string + jsval) \<Rightarrow> policies \<Rightarrow> runtime \<Rightarrow> jsval \<Rightarrow> event list \<times> response" where
  "authenticate verify pol rt vpJwt =
     authenticate_with (checkRevocationStatus rt) verify pol rt vpJwt"

text \<open>The calls of a complete run, in their order.\<close>

definition all_steps :: "event list" where
  "all_steps =
     [EvVerifyPresentation, EvCheckRevocation, EvCheckCompliance, EvAuthorize, EvGenerateToken]"

section \<open>The presentation verifier\<close>

text \<open>
  Modelled from the spec: \<^verbatim>\<open>verifyPresentation\<close>. The server imports it from the
  package \<^verbatim>\<open>did-jwt-vc\<close>, whose code is not part of the repository; what follows is the
  algorithm of the specification (Presentation Verifier): parse the signed envelope and
  take the claimed signer; resolve the signer's key in the identity directory
  (\<open>IdentityNotFound\<close>); verify the signature of the presentation
  (\<open>InvalidSignature\<close>, which is also the answer to an envelope that does not parse);
  for each embedded credential resolve its issuer and verify its signature
  (\<open>InvalidCredentialSignature\<close>, naming the credential by its position); return the
  holder and the claims of the credentials, in order. The directory and the signature
  primitive are collaborators outside the system.
\<close>

record signed_credential =
  cred_issuer :: string
  cred_claims :: jsval
  cred_signature :: string

record signed_presentation =
  pres_holder :: string
  pres_credentials :: "signed_credential list"
  pres_signature :: string

record collaborators =
  parse :: "jsval \<Rightarrow> signed_presentation option"
  resolve :: "string \<Rightarrow> string option"
  presentationSignatureOk :: "signed_presentation \<Rightarrow> string \<Rightarrow> bool"
  credentialSignatureOk :: "signed_credential \<Rightarrow> string \<Rightarrow> bool"

datatype verify_failure =
    IdentityNotFound string
  | InvalidSignature
  | InvalidCredentialSignature nat

definition credential_ok :: "collaborators \<Rightarrow> signed_credential \<Rightarrow> bool" where
  "credential_ok env c =
     (case resolve env (cred_issuer c) of
        None \<Rightarrow> False
      | Some key \<Rightarrow> credentialSignatureOk env c key)"

fun verify_credentials ::
  "collaborators \<Rightarrow> nat \<Rightarrow> signed_credential list \<Rightarrow> verify_failure + jsval list" where
  "verify_credentials env i [] = Inr []"
| "verify_credentials env i (c # cs) =
     (case resolve env (cred_issuer c) of
        None \<Rightarrow> Inl (IdentityNotFound (cred_issuer c))
      | Some key \<Rightarrow>
          if \<not> credentialSignatureOk env c key then Inl (InvalidCredentialSignature i)
          else (case verify_credentials env (Suc i) cs of
                  Inl f \<Rightarrow> Inl f
                | Inr vs \<Rightarrow> Inr (cred_claims c # vs)))"

definition verifyPresentation_spec ::
  "collaborators \<Rightarrow> jsval \<Rightarrow> verify_failure + string \<times> jsval list" where
  "verifyPresentation_spec env token =
     (case parse env token of
        None \<Rightarrow> Inl InvalidSignature
      | Some p \<Rightarrow>
          (case resolve env (pres_holder p) of
             None \<Rightarrow> Inl (IdentityNotFound (pres_holder p))
           | Some key \<Rightarrow>
               if \<not> presentationSignatureOk env p key then Inl InvalidSignature
               else (case verify_credentials env 0 (pres_credentials p) of
                       Inl f \<Rightarrow> Inl f
                     | Inr vs \<Rightarrow> Inr (pres_holder p, vs))))"

text \<open>
  The verifier as the handler calls it: a failure is thrown as an error whose message is
  its tag, a success is the object on which the handler reads
  \<^verbatim>\<open>verifiableCredential\<close>.
\<close>

fun failure_message :: "verify_failure \<Rightarrow> string" where
  "failure_message (IdentityNotFound i) = ''IdentityNotFound: '' @ i"
| "failure_message InvalidSignature = ''InvalidSignature''"
| "failure_message (InvalidCredentialSignature i) =
     ''InvalidCredentialSignature: '' @ show_nat i"

definition spec_verifier :: "collaborators \<Rightarrow> jsval \<Rightarrow> string + jsval" where
  "spec_verifier env token =
     (case verifyPresentation_spec env token of
        Inl f \<Rightarrow> Inl (failure_message f)
      | Inr (h, vs) \<Rightarrow> Inr (JObj [(''holder'', JStr h), (''verifiableCredential'', JArr vs)]))"

section \<open>Concrete inputs\<close>

text \<open>
  A runtime whose clock stands ten seconds after midnight of 1 January 2024 (UTC) and
  whose parser knows that midnight; numbers that are not integers are not needed, and
  arrays inherit the names of the 2019 edition of the language.
\<close>

definition example_rt :: runtime where
  "example_rt =
     \<lparr>now = 1704067210000,
      dateParse = (\<lambda>s. if s = ''2024-01-01T00:00:00.000Z'' then Some 1704067200000 else None),
      numToString = (\<lambda>r. []),
      arrayPrototypeKeys =
        [''constructor'', ''concat'', ''copyWithin'', ''entries'', ''every'', ''fill'',
         ''filter'', ''find'', ''findIndex'', ''flat'', ''flatMap'', ''forEach'',
         ''includes'', ''indexOf'', ''join'', ''keys'', ''lastIndexOf'', ''map'', ''pop'',
         ''push'', ''reduce'', ''reduceRight'', ''reverse'', ''shift'', ''slice'', ''some'',
         ''sort'', ''splice'', ''toLocaleString'', ''toString'', ''unshift'', ''values'']\<rparr>"

text \<open>A credential as the issuer mints it and the library hands it to the handler.\<close>

definition example_credential :: "string \<Rightarrow> jsval" where
  "example_credential act =
     JObj [(''type'', JArr [JStr ''VerifiableCredential'', JStr ''TaskLogCredential'']),
           (''credentialSubject'',
              JObj [(''id'', JStr ''did:ethr:development:0xabc''),
                    (''taskLog'', JObj [(''action'', JStr act)]),
                    (''issuedAt'', JStr ''2024-01-01T00:00:00.000Z'')])]"

text \<open>The same credential with one more field, named \<^verbatim>\<open>toString\<close>.\<close>

definition example_unprintable_credential :: jsval where
  "example_unprintable_credential =
     JObj [(''toString'', JStr ''x''),
           (''type'', JArr [JStr ''VerifiableCredential'', JStr ''TaskLogCredential'']),
           (''credentialSubject'',
              JObj [(''id'', JStr ''did:ethr:development:0xabc''),
                    (''taskLog'', JObj [(''action'', JStr ''OrderPizza'')]),
                    (''issuedAt'', JStr ''2024-01-01T00:00:00.000Z'')])]"

definition example_verified :: "jsval list \<Rightarrow> jsval" where
  "example_verified vcs =
     JObj [(''verifiablePresentation'', JObj [(''verifiableCredential'', JArr vcs)])]"

text \<open>
  Collaborators for a presentation of two credentials: every identity resolves, the
  presentation's signature is good, and a credential's signature is good when it is
  \<open>''good''\<close>.
\<close>

definition example_presentation :: "string \<Rightarrow> string \<Rightarrow> signed_presentation" where
  "example_presentation sig1 sig2 =
     \<lparr>pres_holder = ''did:ethr:development:0xabc'',
      pres_credentials =
        [\<lparr>cred_issuer = ''did:ethr:development:0x111'',
          cred_claims = example_credential ''OrderPizza'', cred_signature = sig1\<rparr>,
         \<lparr>cred_issuer = ''did:ethr:development:0x111'',
          cred_claims = example_credential ''QueryStatus'', cred_signature = sig2\<rparr>],
      pres_signature = ''good''\<rparr>"

definition example_env :: "string \<Rightarrow> string \<Rightarrow> collaborators" where
  "example_env sig1 sig2 =
     \<lparr>parse = (\<lambda>token. Some (example_presentation sig1 sig2)),
      resolve = (\<lambda>identity. Some ''key''),
      presentationSignatureOk = (\<lambda>p key. pres_signature p = ''good''),
      credentialSignatureOk = (\<lambda>c key. cred_signature c = ''good'')\<rparr>"

section \<open>Exceptions and accumulated violations\<close>

lemma bind_exn_Inl [simp]: "bind_exn (Inl e) f = Inl e"
  by (simp add: bind_exn_def)

lemma bind_exn_Inr [simp]: "bind_exn (Inr v) f = f v"
  by (simp add: bind_exn_def)

lemma bind_exn_eq_Inr: "bind_exn m f = Inr r \<longleftrightarrow> (\<exists>v. m = Inr v \<and> f v = Inr r)"
  by (cases m) simp_all

lemma bind_exn_eq_Inl:
  "bind_exn m f = Inl e \<longleftrightarrow> m = Inl e \<or> (\<exists>v. m = Inr v \<and> f v = Inl e)"
  by (cases m) simp_all

lemma allowed_iff:
  "(case a of JStr s \<Rightarrow> s \<in> set acts | _ \<Rightarrow> False) \<longleftrightarrow> a \<in> JStr ` set acts"
  by (cases a) auto

lemma some_includes_array:
  "some_includes rs (JArr ts) = Inr (\<exists>r \<in> set rs. JStr r \<in> set ts)"
  by (induction rs) simp_all

lemma check_type_result:
  assumes "check_type pol vt errs = Inr es"
  shows "\<exists>b. some_includes (requiredVCTypes pol) vt = Inr b
           \<and> es = errs @ (if b then [] else [MissingVCType (requiredVCTypes pol)])"
proof (cases "some_includes (requiredVCTypes pol) vt")
  case (Inl e)
  with assms show ?thesis by (simp add: check_type_def)
next
  case (Inr b)
  with assms have "es = errs @ (if b then [] else [MissingVCType (requiredVCTypes pol)])"
    by (cases b) (simp_all add: check_type_def)
  with Inr show ?thesis by (intro exI [of _ b]) simp
qed

lemma check_action_result:
  assumes "check_action pol rt a errs = Inr es"
  shows "if truthy a \<and> a \<notin> JStr ` set (allowedActions pol)
         then \<exists>s. to_string rt a = Inr s \<and> es = errs @ [DisallowedAction s]
         else es = errs"
proof (cases "truthy a \<and> a \<notin> JStr ` set (allowedActions pol)")
  case True
  with assms show ?thesis
    by (cases "to_string rt a") (simp_all add: check_action_def allowed_iff)
next
  case False
  with assms show ?thesis
    by (simp add: check_action_def allowed_iff)
qed

lemma check_age_result:
  assumes "check_age pol rt iss errs = Inr es"
  shows "if \<exists>t. truthy iss \<and> date_time rt iss = Inr (Some t)
              \<and> of_int (now rt - t) / 1000 > maxVCAge pol
         then \<exists>t. date_time rt iss = Inr (Some t)
              \<and> es = errs @ [Expired \<lfloor>(of_int (now rt - t) :: rat) / 1000\<rfloor> (maxVCAge pol)]
         else es = errs"
proof (cases "truthy iss")
  case False
  with assms show ?thesis by (simp add: check_age_def)
next
  case True
  show ?thesis
  proof (cases "date_time rt iss")
    case (Inl e)
    with assms True show ?thesis by (simp add: check_age_def)
  next
    case (Inr time)
    show ?thesis
    proof (cases time)
      case None
      with assms True Inr show ?thesis by (simp add: check_age_def)
    next
      case (Some t)
      with assms True Inr show ?thesis
        by (cases "of_int (now rt - t) / 1000 > maxVCAge pol")
          (simp_all add: check_age_def Let_def)
    qed
  qed
qed

lemma schema_loop_result:
  "schema_loop rt keys cs errs = Inr es \<Longrightarrow>
     es = errs @ map MissingField (filter (\<lambda>k. js_in rt k cs = Inr False) keys)"
proof (induction keys arbitrary: errs)
  case Nil
  then show ?case by simp
next
  case (Cons key rest)
  from Cons.prems obtain present where p: "js_in rt key cs = Inr present"
    and rest: "schema_loop rt rest cs (if \<not> present then errs @ [MissingField key] else errs)
                 = Inr es"
    by (cases "js_in rt key cs") simp_all
  from Cons.IH [OF rest] p show ?case by (cases present) simp_all
qed

lemma check_schema_result:
  assumes "check_schema rt schema cs errs = Inr es"
  shows "es = errs @ (case schema of
                        None \<Rightarrow> []
                      | Some entries \<Rightarrow>
                          map MissingField
                            (filter (\<lambda>k. js_in rt k cs = Inr False) (own_keys entries)))"
proof (cases schema)
  case None
  with assms show ?thesis by (simp add: check_schema_def)
next
  case (Some entries)
  with assms have "schema_loop rt (own_keys entries) cs errs = Inr es"
    by (simp add: check_schema_def)
  from schema_loop_result [OF this] Some show ?thesis by simp
qed

lemma compliance_decomposition:
  assumes "checkPolicyCompliance pol rt claims requiredSchema = Inr r"
  shows "\<exists>vcTypes hasRequiredType credentialSubject taskAction issuedAt e_action e_age.
           vcTypes_of claims = Inr vcTypes
         \<and> some_includes (requiredVCTypes pol) vcTypes = Inr hasRequiredType
         \<and> (\<forall>ts. vcTypes = JArr ts \<longrightarrow>
              (hasRequiredType \<longleftrightarrow> (\<exists>t \<in> set (requiredVCTypes pol). JStr t \<in> set ts)))
         \<and> credentialSubject_of claims = Inr credentialSubject
         \<and> taskAction_of credentialSubject = Inr taskAction
         \<and> get credentialSubject ''issuedAt'' = Inr issuedAt
         \<and> (if truthy taskAction \<and> taskAction \<notin> JStr ` set (allowedActions pol)
            then \<exists>s. to_string rt taskAction = Inr s \<and> e_action = [DisallowedAction s]
            else e_action = [])
         \<and> (if \<exists>t. truthy issuedAt \<and> date_time rt issuedAt = Inr (Some t)
                  \<and> of_int (now rt - t) / 1000 > maxVCAge pol
            then \<exists>t. date_time rt issuedAt = Inr (Some t)
                  \<and> e_age = [Expired \<lfloor>(of_int (now rt - t) :: rat) / 1000\<rfloor> (maxVCAge pol)]
            else e_age = [])
         \<and> errors r =
              (if hasRequiredType then [] else [MissingVCType (requiredVCTypes pol)])
              @ e_action @ e_age
              @ (case requiredSchema of
                   None \<Rightarrow> []
                 | Some entries \<Rightarrow>
                     map MissingField
                       (filter (\<lambda>k. js_in rt k credentialSubject = Inr False)
                          (own_keys entries)))
         \<and> (compliant r \<longleftrightarrow> errors r = [])"
proof -
  from assms obtain vcTypes errors1 credentialSubject taskAction errors2 issuedAt
      errors3 errors4
    where vt: "vcTypes_of claims = Inr vcTypes"
      and c1: "check_type pol vcTypes [] = Inr errors1"
      and cs: "credentialSubject_of claims = Inr credentialSubject"
      and ta: "taskAction_of credentialSubject = Inr taskAction"
      and c2: "check_action pol rt taskAction errors1 = Inr errors2"
      and ia: "get credentialSubject ''issuedAt'' = Inr issuedAt"
      and c3: "check_age pol rt issuedAt errors2 = Inr errors3"
      and c4: "check_schema rt requiredSchema credentialSubject errors3 = Inr errors4"
      and res: "r = (if length errors4 > 0 then \<lparr>compliant = False, errors = errors4\<rparr>
                     else \<lparr>compliant = True, errors = []\<rparr>)"
    unfolding checkPolicyCompliance_def bind_exn_eq_Inr by (auto split: if_splits)
  from check_type_result [OF c1] obtain b
    where b: "some_includes (requiredVCTypes pol) vcTypes = Inr b"
      and e1: "errors1 = (if b then [] else [MissingVCType (requiredVCTypes pol)])"
    by auto
  have arr: "\<forall>ts. vcTypes = JArr ts \<longrightarrow>
               (b \<longleftrightarrow> (\<exists>t \<in> set (requiredVCTypes pol). JStr t \<in> set ts))"
    using b by (auto simp: some_includes_array)
  define e_action where "e_action = drop (length errors1) errors2"
  define e_age where "e_age = drop (length errors2) errors3"
  have a2: "errors2 = errors1 @ e_action"
    and act: "if truthy taskAction \<and> taskAction \<notin> JStr ` set (allowedActions pol)
              then \<exists>s. to_string rt taskAction = Inr s \<and> e_action = [DisallowedAction s]
              else e_action = []"
    using check_action_result [OF c2] by (auto simp: e_action_def split: if_splits)
  have a3: "errors3 = errors2 @ e_age"
    and age: "if \<exists>t. truthy issuedAt \<and> date_time rt issuedAt = Inr (Some t)
                   \<and> of_int (now rt - t) / 1000 > maxVCAge pol
              then \<exists>t. date_time rt issuedAt = Inr (Some t)
                   \<and> e_age = [Expired \<lfloor>(of_int (now rt - t) :: rat) / 1000\<rfloor> (maxVCAge pol)]
              else e_age = []"
    using check_age_result [OF c3] by (auto simp: e_age_def split: if_splits)
  have a4: "errors4 = errors3 @ (case requiredSchema of
                   None \<Rightarrow> []
                 | Some entries \<Rightarrow>
                     map MissingField
                       (filter (\<lambda>k. js_in rt k credentialSubject = Inr False)
                          (own_keys entries)))"
    using check_schema_result [OF c4] .
  have comp: "compliant r \<longleftrightarrow> errors r = []"
    using res by (auto split: if_splits)
  have "errors r = errors4"
    using res by (auto split: if_splits)
  also have "\<dots> = (if b then [] else [MissingVCType (requiredVCTypes pol)])
              @ e_action @ e_age
              @ (case requiredSchema of
                   None \<Rightarrow> []
                 | Some entries \<Rightarrow>
                     map MissingField
                       (filter (\<lambda>k. js_in rt k credentialSubject = Inr False)
                          (own_keys entries)))"
    by (simp only: a4 a3 a2 e1 append_assoc)
  finally have errs: "errors r = (if b then [] else [MissingVCType (requiredVCTypes pol)])
              @ e_action @ e_age
              @ (case requiredSchema of
                   None \<Rightarrow> []
                 | Some entries \<Rightarrow>
                     map MissingField
                       (filter (\<lambda>k. js_in rt k credentialSubject = Inr False)
                          (own_keys entries)))" .
  show ?thesis
    apply (rule exI [of _ vcTypes], rule exI [of _ b], rule exI [of _ credentialSubject])
    apply (rule exI [of _ taskAction], rule exI [of _ issuedAt])
    apply (rule exI [of _ e_action], rule exI [of _ e_age])
    apply (intro conjI)
             apply (rule vt, rule b, rule arr, rule cs, rule ta, rule ia)
       apply (rule act, rule age, rule errs, rule comp)
    done
qed

section \<open>What the policy engine throws, and what it reads of the runtime\<close>

lemma bind_exn_cong:
  "(\<And>v. m = Inr v \<Longrightarrow> f v = g v) \<Longrightarrow> bind_exn m f = bind_exn m g"
  by (cases m) simp_all

lemma bind_exn_TypeError:
  assumes "bind_exn m f = Inl e"
    and "\<And>e'. m = Inl e' \<Longrightarrow> e' = TypeError"
    and "\<And>v e'. m = Inr v \<Longrightarrow> f v = Inl e' \<Longrightarrow> e' = TypeError"
  shows "e = TypeError"
  using assms by (cases m) simp_all

lemma get_TypeError: "get v k = Inl e \<Longrightarrow> e = TypeError"
  by (simp add: get_def split: if_splits)

lemma get_present: "\<not> nullish v \<Longrightarrow> get v k = Inr (js_prop v k)"
  by (simp add: get_def)

lemma truthy_not_nullish: "truthy v \<Longrightarrow> \<not> nullish v"
  by (cases v) simp_all

lemma opt_chain_TypeError: "opt_chain a k = Inl e \<Longrightarrow> (\<And>e'. a = Inl e' \<Longrightarrow> e' = TypeError)
    \<Longrightarrow> e = TypeError"
  by (cases a) (simp_all add: opt_chain_def)

lemma or_else_TypeError:
  assumes "or_else a b = Inl e"
    and "\<And>e'. a = Inl e' \<Longrightarrow> e' = TypeError"
    and "\<And>e'. b = Inl e' \<Longrightarrow> e' = TypeError"
  shows "e = TypeError"
  using assms by (cases a) (simp_all add: or_else_def split: if_splits)

lemma to_string_TypeError:
  "to_string rt v = Inl e \<Longrightarrow> e = TypeError"
  "elems_to_strings rt vs = Inl e \<Longrightarrow> e = TypeError"
proof (induction rt v and rt vs arbitrary: e and e rule: to_string_elems_to_strings.induct)
  case (6 rt xs)
  then show ?case by (cases "elems_to_strings rt xs") simp_all
next
  case (7 rt kvs)
  then show ?case by (simp split: if_splits)
next
  case (9 rt x xs)
  show ?case
  proof (cases "nullish x")
    case True
    with 9 show ?thesis by (cases "elems_to_strings rt xs") simp_all
  next
    case False
    with 9 show ?thesis
      by (cases "to_string rt x"; cases "elems_to_strings rt xs") simp_all
  qed
qed simp_all

lemma to_string_now [simp]:
  "to_string (rt\<lparr>now := n\<rparr>) v = to_string rt v"
  "elems_to_strings (rt\<lparr>now := n\<rparr>) vs = elems_to_strings rt vs"
  by (induction rt v and rt vs rule: to_string_elems_to_strings.induct)
    (simp_all add: num_to_string_def)

lemma date_time_TypeError: "date_time rt v = Inl e \<Longrightarrow> e = TypeError"
  by (cases v) (auto simp: bind_exn_eq_Inl dest: to_string_TypeError split: if_splits)

lemma date_time_now [simp]: "date_time (rt\<lparr>now := n\<rparr>) v = date_time rt v"
  by (cases v) simp_all

lemma js_includes_TypeError: "js_includes v s = Inl e \<Longrightarrow> e = TypeError"
  by (cases v) simp_all

lemma some_includes_TypeError: "some_includes rs v = Inl e \<Longrightarrow> e = TypeError"
proof (induction rs)
  case Nil
  then show ?case by simp
next
  case (Cons r rs)
  then show ?case
    by (cases "js_includes v r") (auto dest: js_includes_TypeError split: if_splits)
qed

lemma js_in_TypeError: "js_in rt key v = Inl e \<Longrightarrow> e = TypeError"
  by (cases v) simp_all

lemma js_in_now [simp]: "js_in (rt\<lparr>now := n\<rparr>) key v = js_in rt key v"
  by (cases v) simp_all

lemma schema_loop_TypeError: "schema_loop rt keys cs errs = Inl e \<Longrightarrow> e = TypeError"
proof (induction keys arbitrary: errs)
  case Nil
  then show ?case by simp
next
  case (Cons key rest)
  then show ?case
    by (cases "js_in rt key cs") (auto dest: js_in_TypeError)
qed

lemma schema_loop_now [simp]:
  "schema_loop (rt\<lparr>now := n\<rparr>) keys cs errs = schema_loop rt keys cs errs"
  by (induction keys arbitrary: errs) simp_all

lemma check_type_TypeError: "check_type pol vt errs = Inl e \<Longrightarrow> e = TypeError"
  by (cases "some_includes (requiredVCTypes pol) vt")
    (auto simp: check_type_def dest: some_includes_TypeError split: if_splits)

lemma check_action_TypeError: "check_action pol rt a errs = Inl e \<Longrightarrow> e = TypeError"
  by (cases "to_string rt a")
    (auto simp: check_action_def dest: to_string_TypeError split: if_splits)

lemma check_action_now [simp]:
  "check_action pol (rt\<lparr>now := n\<rparr>) a errs = check_action pol rt a errs"
  by (simp add: check_action_def)

lemma check_age_TypeError: "check_age pol rt iss errs = Inl e \<Longrightarrow> e = TypeError"
  by (cases "date_time rt iss")
    (auto simp: check_age_def Let_def dest: date_time_TypeError
      split: if_splits option.splits)

lemma check_schema_TypeError: "check_schema rt schema cs errs = Inl e \<Longrightarrow> e = TypeError"
  by (cases schema) (auto simp: check_schema_def dest: schema_loop_TypeError)

lemma check_schema_now [simp]:
  "check_schema (rt\<lparr>now := n\<rparr>) schema cs errs = check_schema rt schema cs errs"
  by (cases schema) (simp_all add: check_schema_def)

lemma vcTypes_of_TypeError: "vcTypes_of claims = Inl e \<Longrightarrow> e = TypeError"
  unfolding vcTypes_of_def
  by (erule or_else_TypeError, erule get_TypeError, erule or_else_TypeError,
      erule opt_chain_TypeError, erule get_TypeError, simp)

lemma credentialSubject_of_TypeError: "credentialSubject_of claims = Inl e \<Longrightarrow> e = TypeError"
  unfolding credentialSubject_of_def
  by (erule or_else_TypeError, erule get_TypeError, erule or_else_TypeError,
      erule opt_chain_TypeError, erule get_TypeError, simp)

lemma taskAction_of_TypeError: "taskAction_of cs = Inl e \<Longrightarrow> e = TypeError"
  unfolding taskAction_of_def by (erule opt_chain_TypeError, erule get_TypeError)

lemma checkPolicyCompliance_TypeError:
  "checkPolicyCompliance pol rt claims schema = Inl e \<Longrightarrow> e = TypeError"
  unfolding checkPolicyCompliance_def
  apply (erule bind_exn_TypeError, erule vcTypes_of_TypeError)
  apply (erule bind_exn_TypeError, erule check_type_TypeError)
  apply (erule bind_exn_TypeError, erule credentialSubject_of_TypeError)
  apply (erule bind_exn_TypeError, erule taskAction_of_TypeError)
  apply (erule bind_exn_TypeError, erule check_action_TypeError)
  apply (erule bind_exn_TypeError, erule get_TypeError)
  apply (erule bind_exn_TypeError, erule check_age_TypeError)
  apply (erule bind_exn_TypeError, erule check_schema_TypeError)
  apply (simp split: if_splits)
  done

lemma grantedPermissions_of_TypeError: "grantedPermissions_of m = Inl e \<Longrightarrow> e = TypeError"
  by (cases m) (simp_all add: grantedPermissions_of_def)

lemma authorize_TypeError: "authorize rt claims = Inl e \<Longrightarrow> e = TypeError"
  unfolding authorize_def
  apply (erule bind_exn_TypeError, erule credentialSubject_of_TypeError)
  apply (erule bind_exn_TypeError, erule taskAction_of_TypeError)
  apply (erule bind_exn_TypeError, erule get_TypeError)
  apply (erule bind_exn_TypeError, erule to_string_TypeError)
  apply (erule bind_exn_TypeError, erule grantedPermissions_of_TypeError)
  apply simp
  done

lemma credential_of_TypeError: "credential_of v = Inl e \<Longrightarrow> e = TypeError"
  unfolding credential_of_def
  apply (erule or_else_TypeError)
   apply (erule bind_exn_TypeError, erule opt_chain_TypeError, erule get_TypeError, simp)
  apply (erule bind_exn_TypeError, erule get_TypeError, simp)
  done


section \<open>The handler, step by step\<close>

lemma try_block_unfold:
  "try_block rc verify pol rt vp =
     (case verify vp of
        Inl m \<Rightarrow> ([EvVerifyPresentation], Inl (VerifyError m))
      | Inr v \<Rightarrow>
        (case credential_of v of
           Inl e \<Rightarrow> ([EvVerifyPresentation], Inl e)
         | Inr c \<Rightarrow>
           if \<not> truthy c then ([EvVerifyPresentation], Inl NoCredential)
           else
             (case rc c of
                Inl e \<Rightarrow> (take 2 all_steps, Inl e)
              | Inr rs \<Rightarrow>
                if revoked rs
                then (take 2 all_steps,
                      case to_string rt (reason rs) of
                        Inl e \<Rightarrow> Inl e | Inr s \<Rightarrow> Inl (RevokedError s))
                else
                  (case checkPolicyCompliance pol rt c None of
                     Inl e \<Rightarrow> (take 3 all_steps, Inl e)
                   | Inr cr \<Rightarrow>
                     if \<not> compliant cr
                     then (take 3 all_steps, Inl (PolicyViolation (errors cr)))
                     else
                       (case authorize rt c of
                          Inl e \<Rightarrow> (take 4 all_steps, Inl e)
                        | Inr g \<Rightarrow>
                          if \<not> authorized g then (take 4 all_steps, Inl NotAuthorized)
                          else
                            (all_steps,
                             case or_else (opt_chain (get c ''credentialSubject'') ''id'')
                                    (Inr (holderDID g)) of
                               Inl e \<Rightarrow> Inl e
                             | Inr cd \<Rightarrow>
                                 Inr (Status200 cd
                                        (accessToken (generateAuthToken rt g)))))))))"
  by (simp add: try_block_def bind_step_def call_def eval_def throw_def all_steps_def
      split: sum.splits)

lemma clientDid_returns:
  assumes "truthy c"
  shows "\<exists>cd. or_else (opt_chain (get c ''credentialSubject'') ''id'') (Inr h) = Inr cd"
  using assms by (simp add: or_else_def opt_chain_def get_present truthy_not_nullish)

lemma take_all_steps [simp]: "take 5 all_steps = all_steps"
  by (simp add: all_steps_def)

lemma token_event_iff: "EvGenerateToken \<in> set (take n all_steps) \<longleftrightarrow> 5 \<le> n"
proof (cases "5 \<le> n")
  case True
  then show ?thesis by (simp add: all_steps_def)
next
  case False
  then have "n = 0 \<or> n = 1 \<or> n = 2 \<or> n = 3 \<or> n = 4" by arith
  then show ?thesis by (auto simp: all_steps_def)
qed

text \<open>The ten ways a run of the handler's \<^verbatim>\<open>try\<close> block can go.\<close>

lemma try_block_cases:
  assumes "try_block rc verify pol rt vp = (tr, r)"
  obtains
    (verify_failed) m where "verify vp = Inl m" "tr = take 1 all_steps" "r = Inl (VerifyError m)"
  | (no_array) v where "verify vp = Inr v" "credential_of v = Inl TypeError"
      "tr = take 1 all_steps" "r = Inl TypeError"
  | (no_credential) v c where "verify vp = Inr v" "credential_of v = Inr c" "\<not> truthy c"
      "tr = take 1 all_steps" "r = Inl NoCredential"
  | (revocation_threw) v c e where "verify vp = Inr v" "credential_of v = Inr c" "truthy c"
      "rc c = Inl e" "tr = take 2 all_steps" "r = Inl e"
  | (revoked) v c rs where "verify vp = Inr v" "credential_of v = Inr c" "truthy c"
      "rc c = Inr rs" "revoked rs" "tr = take 2 all_steps"
      "r = (case to_string rt (reason rs) of
              Inl e \<Rightarrow> Inl TypeError | Inr s \<Rightarrow> Inl (RevokedError s))"
  | (compliance_threw) v c rs where "verify vp = Inr v" "credential_of v = Inr c" "truthy c"
      "rc c = Inr rs" "\<not> revoked rs" "checkPolicyCompliance pol rt c None = Inl TypeError"
      "tr = take 3 all_steps" "r = Inl TypeError"
  | (not_compliant) v c rs cr where "verify vp = Inr v" "credential_of v = Inr c" "truthy c"
      "rc c = Inr rs" "\<not> revoked rs" "checkPolicyCompliance pol rt c None = Inr cr"
      "\<not> compliant cr" "tr = take 3 all_steps" "r = Inl (PolicyViolation (errors cr))"
  | (authorize_threw) v c rs cr where "verify vp = Inr v" "credential_of v = Inr c" "truthy c"
      "rc c = Inr rs" "\<not> revoked rs" "checkPolicyCompliance pol rt c None = Inr cr"
      "compliant cr" "authorize rt c = Inl TypeError" "tr = take 4 all_steps" "r = Inl TypeError"
  | (not_authorized) v c rs cr g where "verify vp = Inr v" "credential_of v = Inr c"
      "truthy c" "rc c = Inr rs" "\<not> revoked rs"
      "checkPolicyCompliance pol rt c None = Inr cr" "compliant cr"
      "authorize rt c = Inr g" "\<not> authorized g" "tr = take 4 all_steps" "r = Inl NotAuthorized"
  | (token) v c rs cr g cd where "verify vp = Inr v" "credential_of v = Inr c" "truthy c"
      "rc c = Inr rs" "\<not> revoked rs"
      "checkPolicyCompliance pol rt c None = Inr cr" "compliant cr"
      "authorize rt c = Inr g" "authorized g" "tr = all_steps"
      "or_else (opt_chain (get c ''credentialSubject'') ''id'') (Inr (holderDID g)) = Inr cd"
      "r = Inr (Status200 cd (accessToken (generateAuthToken rt g)))"
proof (cases "verify vp")
  case (Inl m)
  with assms verify_failed show ?thesis
    by (simp add: try_block_unfold all_steps_def)
next
  case v: (Inr v)
  show ?thesis
  proof (cases "credential_of v")
    case (Inl e)
    then have "e = TypeError" by (rule credential_of_TypeError)
    with assms v Inl no_array show ?thesis
      by (simp add: try_block_unfold all_steps_def)
  next
    case c: (Inr c)
    show ?thesis
    proof (cases "truthy c")
      case False
      with assms v c no_credential show ?thesis
        by (simp add: try_block_unfold all_steps_def)
    next
      case tc: True
      show ?thesis
      proof (cases "rc c")
        case (Inl e)
        with assms v c tc revocation_threw [of v c e] show ?thesis
          by (simp add: try_block_unfold)
      next
        case rs: (Inr rs)
        show ?thesis
        proof (cases "revoked rs")
          case True
          have "(case to_string rt (reason rs) of
                   Inl e \<Rightarrow> Inl e | Inr s \<Rightarrow> Inl (RevokedError s))
                = ((case to_string rt (reason rs) of
                   Inl e \<Rightarrow> Inl TypeError | Inr s \<Rightarrow> Inl (RevokedError s)) :: exn + response)"
            by (auto split: sum.splits dest: to_string_TypeError)
          with assms v c tc rs True revoked [of v c rs] show ?thesis
            by (simp add: try_block_unfold)
        next
          case nr: False
          show ?thesis
          proof (cases "checkPolicyCompliance pol rt c None")
            case (Inl e)
            then have "e = TypeError" by (rule checkPolicyCompliance_TypeError)
            with assms v c tc rs nr Inl compliance_threw [of v c rs] show ?thesis
              by (simp add: try_block_unfold)
          next
            case cr: (Inr cr)
            show ?thesis
            proof (cases "compliant cr")
              case False
              with assms v c tc rs nr cr not_compliant [of v c rs cr] show ?thesis
                by (simp add: try_block_unfold)
            next
              case cc: True
              show ?thesis
              proof (cases "authorize rt c")
                case (Inl e)
                then have "e = TypeError" by (rule authorize_TypeError)
                with assms v c tc rs nr cr cc Inl authorize_threw [of v c rs cr]
                show ?thesis
                  by (simp add: try_block_unfold)
              next
                case g: (Inr g)
                show ?thesis
                proof (cases "authorized g")
                  case False
                  with assms v c tc rs nr cr cc g not_authorized [of v c rs cr g]
                  show ?thesis
                    by (simp add: try_block_unfold)
                next
                  case True
                  from clientDid_returns [OF tc] obtain cd where
                    cd: "or_else (opt_chain (get c ''credentialSubject'') ''id'')
                       (Inr (holderDID g)) = Inr cd" by blast
                  with assms v c tc rs nr cr cc g True token [of v c rs cr g cd]
                  show ?thesis
                    by (simp add: try_block_unfold)
                qed
              qed
            qed
          qed
        qed
      qed
    qed
  qed
qed

lemma authenticate_with_cases:
  assumes "authenticate_with rc verify pol rt vp = (tr, resp)"
  obtains (no_vp) "\<not> truthy vp" "tr = []" "resp = Status401"
  | (rejected) e where "truthy vp" "try_block rc verify pol rt vp = (tr, Inl e)"
      "resp = Status403 e"
  | (accepted) "truthy vp" "try_block rc verify pol rt vp = (tr, Inr resp)"
proof (cases "truthy vp")
  case False
  with assms no_vp show ?thesis by (simp add: authenticate_with_def)
next
  case True
  obtain tr' r where tb: "try_block rc verify pol rt vp = (tr', r)"
    by (cases "try_block rc verify pol rt vp") blast
  show ?thesis
  proof (cases r)
    case (Inl e)
    with assms True tb rejected [of e] show ?thesis by (simp add: authenticate_with_def)
  next
    case (Inr resp')
    with assms True tb accepted show ?thesis by (simp add: authenticate_with_def)
  qed
qed

lemma checkRevocationStatus_result:
  "checkRevocationStatus rt vcId =
     (case to_string rt vcId of
        Inl e \<Rightarrow> Inl TypeError
      | Inr logged \<Rightarrow> Inr \<lparr>revoked = False, reason = JNull\<rparr>)"
  by (auto simp: checkRevocationStatus_def split: sum.splits dest: to_string_TypeError)

text \<open>
  Whatever \<open>checkRevocationStatus\<close> is given, it never reports a revocation, and the
  handler never answers with the revocation error.
\<close>

lemma revocation_never_reported:
  "checkRevocationStatus rt vcId \<noteq> Inr \<lparr>revoked = True, reason = why\<rparr>"
  "snd (authenticate verify pol rt vpJwt) \<noteq> Status403 (RevokedError s)"
proof -
  show "checkRevocationStatus rt vcId \<noteq> Inr \<lparr>revoked = True, reason = why\<rparr>"
    by (simp add: checkRevocationStatus_result split: sum.splits)
  obtain tr resp
    where run: "authenticate_with (checkRevocationStatus rt) verify pol rt vpJwt = (tr, resp)"
    by (cases "authenticate_with (checkRevocationStatus rt) verify pol rt vpJwt") blast
  have "resp \<noteq> Status403 (RevokedError s)"
    using run
  proof (cases rule: authenticate_with_cases)
    case no_vp
    then show ?thesis by simp
  next
    case (rejected e)
    from rejected(2) have "e \<noteq> RevokedError s"
      by (cases rule: try_block_cases)
        (auto simp: checkRevocationStatus_result split: sum.splits)
    with rejected show ?thesis by simp
  next
    case accepted
    from accepted(2) show ?thesis
      by (cases rule: try_block_cases)
        (auto simp: checkRevocationStatus_result split: sum.splits)
  qed
  with run show "snd (authenticate verify pol rt vpJwt) \<noteq> Status403 (RevokedError s)"
    by (simp add: authenticate_def)
qed

lemmas policy_defs =
  checkPolicyCompliance_def vcTypes_of_def credentialSubject_of_def taskAction_of_def
  check_type_def check_action_def check_age_def check_schema_def authorize_def
  grantedPermissions_of_def permissions_member_def permissions_table_def
  object_prototype_keys_def generateAuthToken_def checkRevocationStatus_def
  get_def opt_get_def opt_chain_def or_else_def time_clip_def num_to_string_def

lemmas handler_defs =
  authenticate_def authenticate_with_def try_block_unfold credential_of_def all_steps_def

lemmas example_defs =
  example_rt_def example_credential_def example_verified_def default_policies_def

section \<open>The claims about the handler\<close>

text \<open>
  C1. In the authentication handler a token is computed and returned only after the
  verification of the presentation, the revocation check and the compliance check have
  all succeeded, in that order: a 200 response means that all five calls were made, in
  their order, that each of the first four returned and passed, and that the token
  returned is the one computed from the grant. The calls made are always an initial part
  of that order, and the token is computed only in a run that answers 200. When a step
  fails or throws, the answer is a 403 carrying that reason and the calls stop there:
  after one call when the verification throws or yields no credential, after two when
  the revocation check throws or reports a revocation, after three when the compliance
  check throws or finds violations, after four when the authorization throws or refuses.
  This holds for every revocation check, the one of the repository among them.
\<close>

theorem token_only_after_all_checks:
  assumes run: "authenticate_with revocationCheck verify pol rt vpJwt = (tr, resp)"
  shows "(\<forall>clientDid tok. resp = Status200 clientDid tok \<longrightarrow>
            tr = all_steps
          \<and> (\<exists>v c rs cr g. verify vpJwt = Inr v \<and> credential_of v = Inr c \<and> truthy c
                \<and> revocationCheck c = Inr rs \<and> \<not> revoked rs
                \<and> checkPolicyCompliance pol rt c None = Inr cr \<and> compliant cr
                \<and> authorize rt c = Inr g \<and> authorized g
                \<and> tok = accessToken (generateAuthToken rt g)))
       \<and> (\<exists>n. tr = take n all_steps)
       \<and> (EvGenerateToken \<in> set tr \<longrightarrow> (\<exists>clientDid tok. resp = Status200 clientDid tok))
       \<and> (\<not> truthy vpJwt \<longrightarrow> resp = Status401 \<and> tr = [])
       \<and> (\<forall>m. truthy vpJwt \<and> verify vpJwt = Inl m \<longrightarrow>
             resp = Status403 (VerifyError m) \<and> tr = take 1 all_steps)
       \<and> (\<forall>v. truthy vpJwt \<and> verify vpJwt = Inr v \<longrightarrow>
             (\<forall>e. credential_of v = Inl e \<longrightarrow> resp = Status403 e \<and> tr = take 1 all_steps)
           \<and> (\<forall>c. credential_of v = Inr c \<and> \<not> truthy c \<longrightarrow>
                resp = Status403 NoCredential \<and> tr = take 1 all_steps))
       \<and> (\<forall>v c. truthy vpJwt \<and> verify vpJwt = Inr v \<and> credential_of v = Inr c \<and> truthy c \<longrightarrow>
             (\<forall>e. revocationCheck c = Inl e \<longrightarrow>
                resp = Status403 e \<and> tr = take 2 all_steps)
           \<and> (\<forall>rs. revocationCheck c = Inr rs \<and> revoked rs \<longrightarrow>
                tr = take 2 all_steps
                \<and> resp = Status403 (case to_string rt (reason rs) of
                                       Inl e \<Rightarrow> TypeError | Inr s \<Rightarrow> RevokedError s))
           \<and> (\<forall>rs. revocationCheck c = Inr rs \<and> \<not> revoked rs \<longrightarrow>
                (\<forall>e. checkPolicyCompliance pol rt c None = Inl e \<longrightarrow>
                   resp = Status403 e \<and> tr = take 3 all_steps)
              \<and> (\<forall>cr. checkPolicyCompliance pol rt c None = Inr cr \<and> \<not> compliant cr \<longrightarrow>
                   resp = Status403 (PolicyViolation (errors cr)) \<and> tr = take 3 all_steps)
              \<and> (\<forall>cr. checkPolicyCompliance pol rt c None = Inr cr \<and> compliant cr \<longrightarrow>
                   (\<forall>e. authorize rt c = Inl e \<longrightarrow>
                      resp = Status403 e \<and> tr = take 4 all_steps)
                 \<and> (\<forall>g. authorize rt c = Inr g \<and> \<not> authorized g \<longrightarrow>
                      resp = Status403 NotAuthorized \<and> tr = take 4 all_steps)
                 \<and> (\<forall>g. authorize rt c = Inr g \<and> authorized g \<longrightarrow>
                      tr = all_steps
                      \<and> (\<exists>clientDid.
                            or_else (opt_chain (get c ''credentialSubject'') ''id'')
                              (Inr (holderDID g)) = Inr clientDid
                          \<and> resp = Status200 clientDid
                                     (accessToken (generateAuthToken rt g)))))))"
  using run
proof (cases rule: authenticate_with_cases)
  case no_vp
  then have "tr = take 0 all_steps" by simp
  with no_vp show ?thesis by auto
next
  case (rejected e)
  from rejected(2) show ?thesis
  proof (cases rule: try_block_cases)
    case (verify_failed m)
    with rejected show ?thesis by (auto simp: token_event_iff)
  next
    case (no_array v)
    with rejected show ?thesis by (auto simp: token_event_iff)
  next
    case (no_credential v c)
    with rejected show ?thesis by (auto simp: token_event_iff)
  next
    case (revocation_threw v c e')
    with rejected show ?thesis by (auto simp: token_event_iff)
  next
    case (revoked v c rs)
    with rejected show ?thesis by (auto simp: token_event_iff split: sum.splits)
  next
    case (compliance_threw v c rs)
    with rejected show ?thesis by (auto simp: token_event_iff)
  next
    case (not_compliant v c rs cr)
    with rejected show ?thesis by (auto simp: token_event_iff)
  next
    case (authorize_threw v c rs cr)
    with rejected show ?thesis by (auto simp: token_event_iff)
  next
    case (not_authorized v c rs cr g)
    with rejected show ?thesis by (auto simp: token_event_iff)
  next
    case (token v c rs cr g cd)
    with rejected show ?thesis by simp
  qed
next
  case accepted
  from accepted(2) show ?thesis
  proof (cases rule: try_block_cases)
    case (token v c rs cr g cd)
    have "\<exists>n. all_steps = take n all_steps" by (rule exI [of _ 5]) simp
    with token accepted show ?thesis by auto
  qed (simp_all split: sum.splits)
qed

lemma example_accepted:
  "authenticate_with (checkRevocationStatus example_rt)
     (\<lambda>t. Inr (example_verified [example_credential ''OrderPizza'']))
     default_policies example_rt (JStr ''vp'')
   = (all_steps,
      Status200 (JStr ''did:ethr:development:0xabc'')
        \<lparr>did = JStr ''did:ethr:development:0xabc'', token_action = JStr ''OrderPizza'',
         token_permissions = [''read:menu'', ''write:order''], exp = 1704070810\<rparr>)"
  by (simp add: handler_defs policy_defs example_defs)

lemma example_not_compliant:
  "authenticate_with (checkRevocationStatus example_rt)
     (\<lambda>t. Inr (example_verified [example_credential ''DeleteAccount'']))
     default_policies example_rt (JStr ''vp'')
   = (take 3 all_steps, Status403 (PolicyViolation [DisallowedAction ''DeleteAccount'']))"
  by (simp add: handler_defs policy_defs example_defs)

lemma example_revocation_throws:
  "authenticate_with (checkRevocationStatus example_rt)
     (\<lambda>t. Inr (example_verified [example_unprintable_credential]))
     default_policies example_rt (JStr ''vp'')
   = (take 2 all_steps, Status403 TypeError)"
  by (simp add: handler_defs policy_defs example_defs example_unprintable_credential_def)

theorem token_only_after_all_checks_witness:
  "authenticate_with (checkRevocationStatus example_rt)
     (\<lambda>t. Inr (example_verified [example_credential ''OrderPizza'']))
     default_policies example_rt (JStr ''vp'')
   = (all_steps,
      Status200 (JStr ''did:ethr:development:0xabc'')
        \<lparr>did = JStr ''did:ethr:development:0xabc'', token_action = JStr ''OrderPizza'',
         token_permissions = [''read:menu'', ''write:order''], exp = 1704070810\<rparr>)
   \<and> (\<exists>c rs cr g.
          credential_of (example_verified [example_credential ''OrderPizza'']) = Inr c
          \<and> truthy c \<and> checkRevocationStatus example_rt c = Inr rs \<and> \<not> revoked rs
          \<and> checkPolicyCompliance default_policies example_rt c None = Inr cr \<and> compliant cr
          \<and> authorize example_rt c = Inr g \<and> authorized g
          \<and> accessToken (generateAuthToken example_rt g)
              = \<lparr>did = JStr ''did:ethr:development:0xabc'', token_action = JStr ''OrderPizza'',
                 token_permissions = [''read:menu'', ''write:order''], exp = 1704070810\<rparr>)
   \<and> authenticate_with (checkRevocationStatus example_rt)
        (\<lambda>t. Inr (example_verified [example_credential ''DeleteAccount'']))
        default_policies example_rt (JStr ''vp'')
      = (take 3 all_steps, Status403 (PolicyViolation [DisallowedAction ''DeleteAccount'']))
   \<and> EvGenerateToken \<notin> set (take 3 all_steps)
   \<and> authenticate_with (checkRevocationStatus example_rt)
        (\<lambda>t. Inr (example_verified [example_unprintable_credential]))
        default_policies example_rt (JStr ''vp'')
      = (take 2 all_steps, Status403 TypeError)
   \<and> EvGenerateToken \<notin> set (take 2 all_steps)"
proof -
  note a = token_only_after_all_checks [OF example_accepted, THEN conjunct1, rule_format, OF refl]
  note b = token_only_after_all_checks [OF example_not_compliant,
             THEN conjunct2, THEN conjunct2, THEN conjunct1]
  note c = token_only_after_all_checks [OF example_revocation_throws,
             THEN conjunct2, THEN conjunct2, THEN conjunct1]
  from a have "\<exists>c rs cr g.
          credential_of (example_verified [example_credential ''OrderPizza'']) = Inr c
          \<and> truthy c \<and> checkRevocationStatus example_rt c = Inr rs \<and> \<not> revoked rs
          \<and> checkPolicyCompliance default_policies example_rt c None = Inr cr \<and> compliant cr
          \<and> authorize example_rt c = Inr g \<and> authorized g
          \<and> accessToken (generateAuthToken example_rt g)
              = \<lparr>did = JStr ''did:ethr:development:0xabc'', token_action = JStr ''OrderPizza'',
                 token_permissions = [''read:menu'', ''write:order''], exp = 1704070810\<rparr>"
  proof (elim conjE exE)
    fix v c rs cr g
    assume "Inr (example_verified [example_credential ''OrderPizza'']) = (Inr v :: string + jsval)"
      and c: "credential_of v = Inr c"
      and rest: "truthy c" "checkRevocationStatus example_rt c = Inr rs" "\<not> revoked rs"
        "checkPolicyCompliance default_policies example_rt c None = Inr cr" "compliant cr"
        "authorize example_rt c = Inr g" "authorized g"
      and tok: "\<lparr>did = JStr ''did:ethr:development:0xabc'', token_action = JStr ''OrderPizza'',
                 token_permissions = [''read:menu'', ''write:order''], exp = 1704070810\<rparr>
                = accessToken (generateAuthToken example_rt g)"
    then have "credential_of (example_verified [example_credential ''OrderPizza'']) = Inr c"
      by simp
    with rest tok [symmetric] show ?thesis by (intro exI conjI)
  qed
  moreover from b have "EvGenerateToken \<notin> set (take 3 all_steps)"
    by blast
  moreover from c have "EvGenerateToken \<notin> set (take 2 all_steps)"
    by blast
  ultimately show ?thesis
    using example_accepted example_not_compliant example_revocation_throws
    by (intro conjI)
qed

text \<open>
  C8. \<open>checkRevocationStatus\<close> does not answer for every input: its first statement
  writes the argument into a log line, and a credential holding a property named
  \<^verbatim>\<open>toString\<close> cannot be converted, so the call throws before it reaches its
  \<^verbatim>\<open>return\<close>. The handler then rejects an otherwise acceptable credential with 403
  after two calls, though not as revoked.
\<close>

theorem checkRevocationStatus_throws_on_unprintable:
  "checkRevocationStatus example_rt example_unprintable_credential = Inl TypeError
   \<and> authenticate (\<lambda>t. Inr (example_verified [example_unprintable_credential]))
       default_policies example_rt (JStr ''vp'')
     = (take 2 all_steps, Status403 TypeError)
   \<and> checkPolicyCompliance default_policies example_rt example_unprintable_credential None
     = Inr \<lparr>compliant = True, errors = []\<rparr>"
  by (simp add: handler_defs policy_defs example_defs example_unprintable_credential_def)

section \<open>The compliance check and the authorization in closed form\<close>

lemma check_age_falsy: "\<not> truthy iss \<Longrightarrow> check_age pol rt iss errs = Inr errs"
  by (simp add: check_age_def)

lemma is_prefix_of_iff: "is_prefix_of xs ys \<longleftrightarrow> (\<exists>q. ys = xs @ q)"
  by (induction xs ys rule: is_prefix_of.induct) auto

lemma str_includes_iff: "str_includes s sub \<longleftrightarrow> (\<exists>p q. s = p @ sub @ q)"
proof (induction s)
  case Nil
  then show ?case by simp
next
  case (Cons c cs)
  have "(\<exists>p q. c # cs = p @ sub @ q)
          \<longleftrightarrow> (\<exists>q. c # cs = sub @ q) \<or> (\<exists>p q. cs = p @ sub @ q)"
  proof
    assume "\<exists>p q. c # cs = p @ sub @ q"
    then obtain p q where pq: "c # cs = p @ sub @ q" by blast
    show "(\<exists>q. c # cs = sub @ q) \<or> (\<exists>p q. cs = p @ sub @ q)"
    proof (cases p)
      case Nil
      with pq show ?thesis by auto
    next
      case (Cons a p')
      with pq have "cs = p' @ sub @ q" by simp
      then show ?thesis by blast
    qed
  next
    assume "(\<exists>q. c # cs = sub @ q) \<or> (\<exists>p q. cs = p @ sub @ q)"
    then show "\<exists>p q. c # cs = p @ sub @ q"
    proof
      assume "\<exists>q. c # cs = sub @ q"
      then obtain q where "c # cs = [] @ sub @ q" by auto
      then show ?thesis by blast
    next
      assume "\<exists>p q. cs = p @ sub @ q"
      then obtain p q where "c # cs = (c # p) @ sub @ q" by auto
      then show ?thesis by blast
    qed
  qed
  with Cons show ?case by (simp add: is_prefix_of_iff)
qed

lemma some_includes_string:
  "some_includes rs (JStr s) = Inr (\<exists>r \<in> set rs. str_includes s r)"
  by (induction rs) simp_all

lemma vcTypes_of_closed:
  "vcTypes_of claims =
     (if nullish claims then Inl TypeError
      else Inr (if truthy (js_prop claims ''type'') then js_prop claims ''type''
                else if truthy (opt_get (js_prop claims ''vc'') ''type'')
                then opt_get (js_prop claims ''vc'') ''type''
                else JArr []))"
  by (simp add: vcTypes_of_def or_else_def opt_chain_def get_def)

lemma credentialSubject_of_closed:
  "credentialSubject_of claims =
     (if nullish claims then Inl TypeError
      else Inr (if truthy (js_prop claims ''credentialSubject'')
                then js_prop claims ''credentialSubject''
                else if truthy (opt_get (js_prop claims ''vc'') ''credentialSubject'')
                then opt_get (js_prop claims ''vc'') ''credentialSubject''
                else JObj []))"
  by (simp add: credentialSubject_of_def or_else_def opt_chain_def get_def)

lemma credentialSubject_truthy:
  "truthy (if truthy (js_prop claims ''credentialSubject'')
           then js_prop claims ''credentialSubject''
           else if truthy (opt_get (js_prop claims ''vc'') ''credentialSubject'')
           then opt_get (js_prop claims ''vc'') ''credentialSubject''
           else JObj [])"
  by simp

lemma taskAction_of_closed:
  "truthy cs \<Longrightarrow> taskAction_of cs = Inr (opt_get (js_prop cs ''taskLog'') ''action'')"
  by (simp add: taskAction_of_def opt_chain_def get_present truthy_not_nullish)

lemma check_type_closed:
  "check_type pol vt errs =
     (if requiredVCTypes pol = [] \<or> (\<exists>ts. vt = JArr ts) \<or> (\<exists>s. vt = JStr s)
      then Inr (errs @
             (if \<exists>t \<in> set (requiredVCTypes pol).
                   (\<exists>ts. vt = JArr ts \<and> JStr t \<in> set ts)
                   \<or> (\<exists>s p q. vt = JStr s \<and> s = p @ t @ q)
              then [] else [MissingVCType (requiredVCTypes pol)]))
      else Inl TypeError)"
proof (cases vt)
  case (JArr ts)
  then show ?thesis by (simp add: check_type_def some_includes_array)
next
  case (JStr s)
  then show ?thesis by (simp add: check_type_def some_includes_string str_includes_iff)
qed (cases "requiredVCTypes pol"; simp add: check_type_def)+

lemma check_action_closed:
  "check_action pol rt a errs =
     (if truthy a \<and> a \<notin> JStr ` set (allowedActions pol)
      then (case to_string rt a of
              Inl e \<Rightarrow> Inl TypeError
            | Inr s \<Rightarrow> Inr (errs @ [DisallowedAction s]))
      else Inr errs)"
  by (auto simp: check_action_def allowed_iff split: sum.splits dest: to_string_TypeError)

lemma check_age_closed:
  "check_age pol rt i errs =
     (if truthy i
      then (case date_time rt i of
              Inl e \<Rightarrow> Inl TypeError
            | Inr None \<Rightarrow> Inr errs
            | Inr (Some t) \<Rightarrow>
                if (of_int (now rt - t) :: rat) / 1000 > maxVCAge pol
                then Inr (errs @ [Expired \<lfloor>(of_int (now rt - t) :: rat) / 1000\<rfloor> (maxVCAge pol)])
                else Inr errs)
      else Inr errs)"
  by (auto simp: check_age_def Let_def split: sum.splits option.splits
      dest: date_time_TypeError)

lemma schema_loop_closed:
  "schema_loop rt keys cs errs =
     (if keys = [] \<or> (\<exists>kvs. cs = JObj kvs) \<or> (\<exists>xs. cs = JArr xs)
      then Inr (errs @ map MissingField (filter (\<lambda>k. js_in rt k cs = Inr False) keys))
      else Inl TypeError)"
proof (induction keys arbitrary: errs)
  case Nil
  then show ?case by simp
next
  case (Cons key rest)
  show ?case
  proof (cases "(\<exists>kvs. cs = JObj kvs) \<or> (\<exists>xs. cs = JArr xs)")
    case True
    then obtain present where p: "js_in rt key cs = Inr present" by auto
    from True p Cons.IH show ?thesis by (cases present) simp_all
  next
    case False
    then have "js_in rt key cs = Inl TypeError" by (cases cs) simp_all
    with False show ?thesis by simp
  qed
qed

text \<open>
  The compliance check in one equation: it throws exactly when one of its conversions
  does, and otherwise returns the violations of the four rules, each decided on its own.
\<close>

lemma compliance_closed_form:
  assumes types: "vcTypes =
      (if truthy (js_prop claims ''type'') then js_prop claims ''type''
       else if truthy (opt_get (js_prop claims ''vc'') ''type'')
       then opt_get (js_prop claims ''vc'') ''type''
       else JArr [])"
    and subject: "credentialSubject =
      (if truthy (js_prop claims ''credentialSubject'')
       then js_prop claims ''credentialSubject''
       else if truthy (opt_get (js_prop claims ''vc'') ''credentialSubject'')
       then opt_get (js_prop claims ''vc'') ''credentialSubject''
       else JObj [])"
    and action: "taskAction = opt_get (js_prop credentialSubject ''taskLog'') ''action''"
    and issued: "issuedAt = js_prop credentialSubject ''issuedAt''"
    and keys: "schemaKeys = (case requiredSchema of None \<Rightarrow> [] | Some entries \<Rightarrow> own_keys entries)"
    and rule1: "typeViolation =
      (if \<exists>t \<in> set (requiredVCTypes pol).
            (\<exists>ts. vcTypes = JArr ts \<and> JStr t \<in> set ts)
            \<or> (\<exists>s p q. vcTypes = JStr s \<and> s = p @ t @ q)
       then [] else [MissingVCType (requiredVCTypes pol)])"
    and rule2: "actionViolation =
      (if truthy taskAction \<and> taskAction \<notin> JStr ` set (allowedActions pol)
       then (case to_string rt taskAction of Inr s \<Rightarrow> [DisallowedAction s] | Inl e \<Rightarrow> [])
       else [])"
    and rule3: "ageViolation =
      (case (if truthy issuedAt then date_time rt issuedAt else Inr None) of
         Inr (Some t) \<Rightarrow>
           if (of_int (now rt - t) :: rat) / 1000 > maxVCAge pol
           then [Expired \<lfloor>(of_int (now rt - t) :: rat) / 1000\<rfloor> (maxVCAge pol)]
           else []
       | _ \<Rightarrow> [])"
    and rule4: "schemaViolations =
      map MissingField (filter (\<lambda>k. js_in rt k credentialSubject = Inr False) schemaKeys)"
    and returns: "returns \<longleftrightarrow>
        \<not> nullish claims
      \<and> (requiredVCTypes pol = [] \<or> (\<exists>ts. vcTypes = JArr ts) \<or> (\<exists>s. vcTypes = JStr s))
      \<and> (truthy taskAction \<and> taskAction \<notin> JStr ` set (allowedActions pol)
           \<longrightarrow> (\<exists>s. to_string rt taskAction = Inr s))
      \<and> (truthy issuedAt \<longrightarrow> (\<exists>time. date_time rt issuedAt = Inr time))
      \<and> (schemaKeys = [] \<or> (\<exists>kvs. credentialSubject = JObj kvs)
           \<or> (\<exists>xs. credentialSubject = JArr xs))"
  shows "checkPolicyCompliance pol rt claims requiredSchema =
           (if returns
            then Inr \<lparr>compliant =
                        (typeViolation @ actionViolation @ ageViolation @ schemaViolations = []),
                      errors = typeViolation @ actionViolation @ ageViolation @ schemaViolations\<rparr>
            else Inl TypeError)"
proof (cases "nullish claims")
  case True
  then show ?thesis
    by (simp add: returns checkPolicyCompliance_def vcTypes_of_closed)
next
  case present: False
  have tcs: "truthy credentialSubject"
    unfolding subject by (rule credentialSubject_truthy)
  have vt: "vcTypes_of claims = Inr vcTypes"
    and cs: "credentialSubject_of claims = Inr credentialSubject"
    using present by (simp_all add: vcTypes_of_closed credentialSubject_of_closed types subject)
  have a: "taskAction_of credentialSubject = Inr taskAction"
    using tcs by (simp add: taskAction_of_closed action)
  have i: "get credentialSubject ''issuedAt'' = Inr issuedAt"
    using tcs by (simp add: get_present truthy_not_nullish issued)
  have sch: "check_schema rt requiredSchema credentialSubject errs =
               schema_loop rt schemaKeys credentialSubject errs" for errs
    by (cases requiredSchema) (simp_all add: check_schema_def keys)
  have unfold: "checkPolicyCompliance pol rt claims requiredSchema =
      bind_exn (check_type pol vcTypes []) (\<lambda>errors1.
      bind_exn (check_action pol rt taskAction errors1) (\<lambda>errors2.
      bind_exn (check_age pol rt issuedAt errors2) (\<lambda>errors3.
      bind_exn (schema_loop rt schemaKeys credentialSubject errors3) (\<lambda>errors4.
        if length errors4 > 0 then Inr \<lparr>compliant = False, errors = errors4\<rparr>
        else Inr \<lparr>compliant = True, errors = []\<rparr>))))"
    by (simp add: checkPolicyCompliance_def vt cs a i sch)
  show ?thesis
  proof (cases "requiredVCTypes pol = [] \<or> (\<exists>ts. vcTypes = JArr ts) \<or> (\<exists>s. vcTypes = JStr s)")
    case False
    then show ?thesis
      unfolding unfold by (simp add: check_type_closed returns)
  next
    case t_ok: True
    then have c1: "check_type pol vcTypes [] = Inr typeViolation"
      by (simp add: check_type_closed rule1)
    show ?thesis
    proof (cases "truthy taskAction \<and> taskAction \<notin> JStr ` set (allowedActions pol)
                    \<longrightarrow> (\<exists>s. to_string rt taskAction = Inr s)")
      case False
      then have "check_action pol rt taskAction typeViolation = Inl TypeError"
        by (cases "to_string rt taskAction") (auto simp: check_action_closed)
      with False show ?thesis
        unfolding unfold by (simp add: c1 returns)
    next
      case a_ok: True
      then have c2: "check_action pol rt taskAction typeViolation
                       = Inr (typeViolation @ actionViolation)"
        by (cases "to_string rt taskAction") (auto simp: check_action_closed rule2)
      show ?thesis
      proof (cases "truthy issuedAt \<longrightarrow> (\<exists>time. date_time rt issuedAt = Inr time)")
        case False
        then have "check_age pol rt issuedAt (typeViolation @ actionViolation) = Inl TypeError"
          by (cases "date_time rt issuedAt") (auto simp: check_age_closed)
        with False show ?thesis
          unfolding unfold by (simp add: c1 c2 returns)
      next
        case g_ok: True
        then have c3: "check_age pol rt issuedAt (typeViolation @ actionViolation)
                         = Inr (typeViolation @ actionViolation @ ageViolation)"
          by (cases "date_time rt issuedAt")
            (auto simp: check_age_closed rule3 split: option.splits)
        show ?thesis
        proof (cases "schemaKeys = [] \<or> (\<exists>kvs. credentialSubject = JObj kvs)
                        \<or> (\<exists>xs. credentialSubject = JArr xs)")
          case False
          then have "schema_loop rt schemaKeys credentialSubject
                       (typeViolation @ actionViolation @ ageViolation) = Inl TypeError"
            by (simp add: schema_loop_closed)
          with False show ?thesis
            unfolding unfold by (simp add: c1 c2 c3 returns)
        next
          case s_ok: True
          then have c4: "schema_loop rt schemaKeys credentialSubject
                       (typeViolation @ actionViolation @ ageViolation)
                     = Inr (typeViolation @ actionViolation @ ageViolation @ schemaViolations)"
            by (simp add: schema_loop_closed rule4)
          have r: returns
            unfolding returns using present t_ok a_ok g_ok s_ok by blast
          have "checkPolicyCompliance pol rt claims requiredSchema =
                  (if length (typeViolation @ actionViolation @ ageViolation @ schemaViolations) > 0
                   then Inr \<lparr>compliant = False,
                             errors = typeViolation @ actionViolation @ ageViolation
                                        @ schemaViolations\<rparr>
                   else Inr \<lparr>compliant = True, errors = []\<rparr>)"
            unfolding unfold by (simp only: c1 c2 c3 c4 bind_exn_Inr)
          with r show ?thesis
            by (cases "typeViolation @ actionViolation @ ageViolation @ schemaViolations = []")
              simp_all
        qed
      qed
    qed
  qed
qed

lemma table_keys_not_inherited:
  "map_of permissions_table key = Some ps \<Longrightarrow> key \<notin> set object_prototype_keys"
  by (auto simp: permissions_table_def object_prototype_keys_def split: if_splits)

text \<open>\<open>authorize\<close> in one equation.\<close>

lemma authorize_closed_form:
  assumes subject: "credentialSubject =
      (if truthy (js_prop claims ''credentialSubject'')
       then js_prop claims ''credentialSubject''
       else if truthy (opt_get (js_prop claims ''vc'') ''credentialSubject'')
       then opt_get (js_prop claims ''vc'') ''credentialSubject''
       else JObj [])"
    and action: "taskAction = opt_get (js_prop credentialSubject ''taskLog'') ''action''"
  shows "authorize rt claims =
           (if nullish claims then Inl TypeError
            else case to_string rt taskAction of
                   Inl e \<Rightarrow> Inl TypeError
                 | Inr key \<Rightarrow>
                     if key \<in> set object_prototype_keys then Inl TypeError
                     else Inr \<lparr>authorized = True,
                               holderDID = js_prop credentialSubject ''id'',
                               action = taskAction,
                               permissions =
                                 (case map_of permissions_table key of
                                    Some ps \<Rightarrow> ps | None \<Rightarrow> []),
                               expiresIn = 3600\<rparr>)"
proof (cases "nullish claims")
  case True
  then show ?thesis by (simp add: authorize_def credentialSubject_of_closed)
next
  case present: False
  have tcs: "truthy credentialSubject"
    unfolding subject by (rule credentialSubject_truthy)
  have cs: "credentialSubject_of claims = Inr credentialSubject"
    using present by (simp add: credentialSubject_of_closed subject)
  have a: "taskAction_of credentialSubject = Inr taskAction"
    using tcs by (simp add: taskAction_of_closed action)
  have h: "get credentialSubject ''id'' = Inr (js_prop credentialSubject ''id'')"
    using tcs by (simp add: get_present truthy_not_nullish)
  have granted: "grantedPermissions_of (permissions_member key) =
      (if key \<in> set object_prototype_keys then Inl TypeError
       else Inr (case map_of permissions_table key of Some ps \<Rightarrow> ps | None \<Rightarrow> []))" for key
    using table_keys_not_inherited [of key]
    by (auto simp: grantedPermissions_of_def permissions_member_def split: option.splits)
  show ?thesis
  proof (cases "to_string rt taskAction")
    case (Inl e)
    then have "e = TypeError" by (rule to_string_TypeError)
    with Inl present show ?thesis by (simp add: authorize_def cs a h)
  next
    case (Inr key)
    with present show ?thesis
      by (cases "key \<in> set object_prototype_keys") (simp_all add: authorize_def cs a h granted)
  qed
qed

section \<open>The claims about the compliance check\<close>



text \<open>
  A credential that breaks all four rules at once (not a task log credential, an action
  outside the list, issued 3601 seconds ago, and no \<^verbatim>\<open>id\<close> although the schema asks
  for one, while the schema's \<^verbatim>\<open>toString\<close> is found on the prototype), one that
  breaks only the first and the last, and one that breaks none.
\<close>

lemmas value_defs =
  opt_get_def object_prototype_keys_def permissions_table_def time_clip_def
  num_to_string_def example_rt_def example_credential_def default_policies_def


lemma expired_in_errors:
  assumes res: "checkPolicyCompliance pol rt claims schema = Inr r"
    and cs: "credentialSubject_of claims = Inr cs"
    and iss: "get cs ''issuedAt'' = Inr iss"
  shows "Expired n m \<in> set (errors r) \<longleftrightarrow>
           (\<exists>t. truthy iss \<and> date_time rt iss = Inr (Some t)
                \<and> of_int (now rt - t) / 1000 > maxVCAge pol
                \<and> n = \<lfloor>(of_int (now rt - t) :: rat) / 1000\<rfloor> \<and> m = maxVCAge pol)"
proof -
  from compliance_decomposition [OF res]
  obtain b cs' a iss' e_action e_age where
    cs': "credentialSubject_of claims = Inr cs'"
    and iss': "get cs' ''issuedAt'' = Inr iss'"
    and act: "if truthy a \<and> a \<notin> JStr ` set (allowedActions pol)
            then \<exists>s. to_string rt a = Inr s \<and> e_action = [DisallowedAction s]
            else e_action = []"
    and age: "if \<exists>t. truthy iss' \<and> date_time rt iss' = Inr (Some t)
                  \<and> of_int (now rt - t) / 1000 > maxVCAge pol
            then \<exists>t. date_time rt iss' = Inr (Some t)
                  \<and> e_age = [Expired \<lfloor>(of_int (now rt - t) :: rat) / 1000\<rfloor> (maxVCAge pol)]
            else e_age = []"
    and errs: "errors r =
              (if b then [] else [MissingVCType (requiredVCTypes pol)])
              @ e_action @ e_age
              @ (case schema of
                   None \<Rightarrow> []
                 | Some entries \<Rightarrow>
                     map MissingField
                       (filter (\<lambda>k. js_in rt k cs' = Inr False) (own_keys entries)))"
    by (elim exE conjE)
  from cs cs' iss iss' have eq: "iss' = iss" by simp
  have 1: "Expired n m \<notin> set (if b then [] else [MissingVCType (requiredVCTypes pol)])"
    by simp
  have 2: "Expired n m \<notin> set e_action"
    using act by (auto split: if_splits)
  have "Expired n m \<in> set (errors r) \<longleftrightarrow> Expired n m \<in> set e_age"
    using 1 2 by (cases schema) (auto simp: errs)
  also have "\<dots> \<longleftrightarrow> (\<exists>t. truthy iss \<and> date_time rt iss = Inr (Some t)
                \<and> of_int (now rt - t) / 1000 > maxVCAge pol
                \<and> n = \<lfloor>(of_int (now rt - t) :: rat) / 1000\<rfloor> \<and> m = maxVCAge pol)"
  proof (cases "\<exists>t. truthy iss \<and> date_time rt iss = Inr (Some t)
                  \<and> of_int (now rt - t) / 1000 > maxVCAge pol")
    case True
    then obtain t where t: "truthy iss" "date_time rt iss = Inr (Some t)"
      "of_int (now rt - t) / 1000 > maxVCAge pol" by blast
    with age eq have "e_age = [Expired \<lfloor>(of_int (now rt - t) :: rat) / 1000\<rfloor> (maxVCAge pol)]"
      by auto
    with t show ?thesis by auto
  next
    case False
    with age eq have "e_age = []" by simp
    with False show ?thesis by auto
  qed
  finally show ?thesis .
qed

text \<open>
  C5. With the configured maximum of 3600 seconds, claims whose \<^verbatim>\<open>issuedAt\<close> is a
  date 3601 seconds before the clock get the expiry violation (carrying 3601 and 3600),
  and claims whose \<^verbatim>\<open>issuedAt\<close> is 3599 seconds before it get none, whatever else
  they hold. The comparison is strict: an expiry violation is reported exactly when more
  than 3600000 milliseconds have passed.
\<close>

theorem freshness_boundary:
  assumes "checkPolicyCompliance default_policies rt claims schema = Inr r"
    and "credentialSubject_of claims = Inr cs"
    and "get cs ''issuedAt'' = Inr issuedAt"
    and "truthy issuedAt"
    and "date_time rt issuedAt = Inr (Some t)"
  shows "((\<exists>n m. Expired n m \<in> set (errors r)) \<longleftrightarrow> now rt - t > 3600000)
       \<and> (now rt - t = 3601000 \<longrightarrow> Expired 3601 3600 \<in> set (errors r))
       \<and> (now rt - t = 3599000 \<longrightarrow> \<not> (\<exists>n m. Expired n m \<in> set (errors r)))"
proof -
  have max: "maxVCAge default_policies = 3600"
    by (simp add: default_policies_def)
  have mem: "Expired n m \<in> set (errors r) \<longleftrightarrow>
               (of_int (now rt - t) :: rat) / 1000 > 3600
               \<and> n = \<lfloor>(of_int (now rt - t) :: rat) / 1000\<rfloor> \<and> m = 3600" for n m
    using expired_in_errors [OF assms(1-3), of n m] assms(4,5) by (auto simp: max)
  have "(of_int x :: rat) / 1000 > 3600 \<longleftrightarrow> x > 3600000" for x :: int
    by (simp add: less_divide_eq)
  then have gt: "(of_int (now rt - t) :: rat) / 1000 > 3600 \<longleftrightarrow> now rt - t > 3600000" .
  have "(\<exists>n m. Expired n m \<in> set (errors r))
          \<longleftrightarrow> (of_int (now rt - t) :: rat) / 1000 > 3600"
    using mem by blast
  then have a: "(\<exists>n m. Expired n m \<in> set (errors r)) \<longleftrightarrow> now rt - t > 3600000"
    unfolding gt .
  have b: "Expired 3601 3600 \<in> set (errors r)" if "now rt - t = 3601000"
    using that by (simp add: mem)
  have c: "\<not> (\<exists>n m. Expired n m \<in> set (errors r))" if "now rt - t = 3599000"
    using that by (simp add: a)
  from a b c show ?thesis by blast
qed

lemma example_issuedAt:
  "credentialSubject_of (example_credential act)
     = Inr (JObj [(''id'', JStr ''did:ethr:development:0xabc''),
                  (''taskLog'', JObj [(''action'', JStr act)]),
                  (''issuedAt'', JStr ''2024-01-01T00:00:00.000Z'')])"
  "get (JObj [(''id'', JStr ''did:ethr:development:0xabc''),
              (''taskLog'', JObj [(''action'', JStr act)]),
              (''issuedAt'', JStr ''2024-01-01T00:00:00.000Z'')]) ''issuedAt''
     = Inr (JStr ''2024-01-01T00:00:00.000Z'')"
  "truthy (JStr ''2024-01-01T00:00:00.000Z'')"
  "date_time (example_rt\<lparr>now := n\<rparr>) (JStr ''2024-01-01T00:00:00.000Z'')
     = Inr (Some 1704067200000)"
  by (simp_all add: policy_defs example_defs)

lemma example_expired:
  "checkPolicyCompliance default_policies (example_rt\<lparr>now := 1704070801000\<rparr>)
     (example_credential ''OrderPizza'') None
   = Inr \<lparr>compliant = False, errors = [Expired 3601 3600]\<rparr>"
  by (simp add: policy_defs example_defs)

lemma example_fresh:
  "checkPolicyCompliance default_policies (example_rt\<lparr>now := 1704070799000\<rparr>)
     (example_credential ''OrderPizza'') None
   = Inr \<lparr>compliant = True, errors = []\<rparr>"
  by (simp add: policy_defs example_defs)

theorem freshness_boundary_witness:
  "checkPolicyCompliance default_policies (example_rt\<lparr>now := 1704070801000\<rparr>)
     (example_credential ''OrderPizza'') None
   = Inr \<lparr>compliant = False, errors = [Expired 3601 3600]\<rparr>
   \<and> Expired 3601 3600 \<in> set (errors \<lparr>compliant = False, errors = [Expired 3601 3600]\<rparr>)
   \<and> checkPolicyCompliance default_policies (example_rt\<lparr>now := 1704070799000\<rparr>)
       (example_credential ''OrderPizza'') None
     = Inr \<lparr>compliant = True, errors = []\<rparr>
   \<and> \<not> (\<exists>n m. Expired n m \<in> set (errors \<lparr>compliant = True, errors = []\<rparr>))"
proof -
  from freshness_boundary [OF example_expired example_issuedAt]
  have 1: "Expired 3601 3600 \<in> set (errors \<lparr>compliant = False, errors = [Expired 3601 3600]\<rparr>)"
    by simp
  from freshness_boundary [OF example_fresh example_issuedAt]
  have 2: "\<not> (\<exists>n m. Expired n m \<in> set (errors \<lparr>compliant = True, errors = []\<rparr>))"
    by simp
  from example_expired 1 example_fresh 2 show ?thesis by (intro conjI)
qed

lemma check_type_maxVCAge [simp]:
  "check_type (pol\<lparr>maxVCAge := a\<rparr>) vt errs = check_type pol vt errs"
  by (simp add: check_type_def cong: if_cong)

lemma check_action_maxVCAge [simp]:
  "check_action (pol\<lparr>maxVCAge := a\<rparr>) rt act errs = check_action pol rt act errs"
  by (cases act) (simp_all add: check_action_def)

text \<open>
  C10. When the credential subject holds no \<^verbatim>\<open>issuedAt\<close> (or a falsy one) the age is
  not checked at all: no result carries an expiry violation, and the result is the same
  for every \<^verbatim>\<open>maxVCAge\<close> and every reading of the clock.
\<close>

theorem no_issuedAt_no_age_check:
  assumes cs: "credentialSubject_of claims = Inr cs"
    and iss: "get cs ''issuedAt'' = Inr issuedAt"
    and falsy: "\<not> truthy issuedAt"
  shows "(\<forall>r n m. checkPolicyCompliance pol rt claims schema = Inr r \<longrightarrow>
                   Expired n m \<notin> set (errors r))
       \<and> checkPolicyCompliance (pol\<lparr>maxVCAge := age\<rparr>) (rt\<lparr>now := clock\<rparr>) claims schema
           = checkPolicyCompliance pol rt claims schema"
proof
  show "\<forall>r n m. checkPolicyCompliance pol rt claims schema = Inr r \<longrightarrow>
                   Expired n m \<notin> set (errors r)"
    using expired_in_errors [OF _ cs iss] falsy by blast
  show "checkPolicyCompliance (pol\<lparr>maxVCAge := age\<rparr>) (rt\<lparr>now := clock\<rparr>) claims schema
           = checkPolicyCompliance pol rt claims schema"
    by (simp add: checkPolicyCompliance_def cs iss check_age_falsy [OF falsy])
qed

lemma example_no_issuedAt:
  "credentialSubject_of (JObj [(''type'', JArr [JStr ''TaskLogCredential''])]) = Inr (JObj [])"
  "get (JObj []) ''issuedAt'' = Inr JUndefined"
  "\<not> truthy JUndefined"
  by (simp_all add: policy_defs)

theorem no_issuedAt_no_age_check_witness:
  "credentialSubject_of (JObj [(''type'', JArr [JStr ''TaskLogCredential''])]) = Inr (JObj [])
   \<and> get (JObj []) ''issuedAt'' = Inr JUndefined
   \<and> checkPolicyCompliance (default_policies\<lparr>maxVCAge := 0\<rparr>) (example_rt\<lparr>now := 0\<rparr>)
       (JObj [(''type'', JArr [JStr ''TaskLogCredential''])]) None
     = checkPolicyCompliance default_policies example_rt
         (JObj [(''type'', JArr [JStr ''TaskLogCredential''])]) None
   \<and> checkPolicyCompliance default_policies example_rt
         (JObj [(''type'', JArr [JStr ''TaskLogCredential''])]) None
     = Inr \<lparr>compliant = True, errors = []\<rparr>"
proof -
  from no_issuedAt_no_age_check [OF example_no_issuedAt]
  have "checkPolicyCompliance (default_policies\<lparr>maxVCAge := 0\<rparr>) (example_rt\<lparr>now := 0\<rparr>)
       (JObj [(''type'', JArr [JStr ''TaskLogCredential''])]) None
     = checkPolicyCompliance default_policies example_rt
         (JObj [(''type'', JArr [JStr ''TaskLogCredential''])]) None"
    by (rule conjunct2)
  moreover have "checkPolicyCompliance default_policies example_rt
         (JObj [(''type'', JArr [JStr ''TaskLogCredential''])]) None
     = Inr \<lparr>compliant = True, errors = []\<rparr>"
    by (simp add: policy_defs example_defs)
  ultimately show ?thesis
    using example_no_issuedAt(1,2) by (intro conjI)
qed




section \<open>The claims about \<open>authorize\<close> and about malformed claims\<close>

lemma grantedPermissions_of_own_or_absent:
  assumes "key \<notin> set object_prototype_keys"
  shows "grantedPermissions_of (permissions_member key)
           = Inr (case map_of permissions_table key of Some ps \<Rightarrow> ps | None \<Rightarrow> [])"
  using assms
  by (simp add: grantedPermissions_of_def permissions_member_def split: option.splits)

text \<open>
  On a string action that names nothing inherited, \<open>authorize\<close> grants what the
  table lists for it, and nothing when the table does not list it.
\<close>

lemma authorize_on_string_action:
  assumes "credentialSubject_of claims = Inr cs" and "truthy cs"
    and "taskAction_of cs = Inr (JStr a)" and "a \<notin> set object_prototype_keys"
  shows "authorize rt claims =
           Inr \<lparr>authorized = True, holderDID = js_prop cs ''id'', action = JStr a,
                permissions = (case map_of permissions_table a of Some ps \<Rightarrow> ps | None \<Rightarrow> []),
                expiresIn = 3600\<rparr>"
  using assms
  by (simp add: authorize_def get_present truthy_not_nullish
      grantedPermissions_of_own_or_absent)

text \<open>
  C2. \<open>authorize\<close> looks the action up with \<^verbatim>\<open>permissions[taskAction]\<close>, which
  also finds what the object literal inherits. For the unlisted action
  \<^verbatim>\<open>"toString"\<close> the lookup yields a function, the fallback to the empty list is not
  taken, and \<^verbatim>\<open>grantedPermissions.join\<close> throws: no grant is returned. The key is
  the action converted to a string, so the one-element array \<^verbatim>\<open>["OrderPizza"]\<close>,
  which is not the action \<^verbatim>\<open>"OrderPizza"\<close>, is granted its permissions.
\<close>

theorem authorize_inherited_name_throws:
  "authorize example_rt (example_credential ''toString'') = Inl TypeError
   \<and> authorize example_rt
       (JObj [(''credentialSubject'',
                 JObj [(''taskLog'', JObj [(''action'', JArr [JStr ''OrderPizza''])])])])
     = Inr \<lparr>authorized = True, holderDID = JUndefined, action = JArr [JStr ''OrderPizza''],
            permissions = [''read:menu'', ''write:order''], expiresIn = 3600\<rparr>"
  by (simp add: policy_defs example_defs)

text \<open>
  C6, as the code has it. On \<^verbatim>\<open>null\<close> and \<^verbatim>\<open>undefined\<close> both functions throw, at
  their first read of a property. The compliance check also throws on a type that is a
  number, on a disallowed action or an \<^verbatim>\<open>issuedAt\<close> that cannot be converted, and on
  a credential subject that is a string when the schema has a key; \<open>authorize\<close> also
  throws on an action that cannot be converted and on one that names an inherited
  property.
\<close>

theorem policy_engine_throws_on_null:
  "checkPolicyCompliance default_policies example_rt JNull None = Inl TypeError
   \<and> authorize example_rt JNull = Inl TypeError
   \<and> checkPolicyCompliance default_policies example_rt JUndefined None = Inl TypeError
   \<and> authorize example_rt JUndefined = Inl TypeError
   \<and> checkPolicyCompliance default_policies example_rt (JObj [(''type'', JNum 5)]) None
     = Inl TypeError
   \<and> checkPolicyCompliance default_policies example_rt
       (JObj [(''credentialSubject'',
                 JObj [(''taskLog'', JObj [(''action'', JObj [(''toString'', JStr ''x'')])])])])
       None
     = Inl TypeError
   \<and> checkPolicyCompliance default_policies example_rt
       (JObj [(''type'', JArr [JStr ''TaskLogCredential'']),
              (''credentialSubject'', JObj [(''issuedAt'', JObj [(''toString'', JStr ''x'')])])])
       None
     = Inl TypeError
   \<and> checkPolicyCompliance default_policies example_rt
       (JObj [(''type'', JArr [JStr ''TaskLogCredential'']),
              (''credentialSubject'', JStr ''subject'')])
       (Some [(''id'', JStr ''string'')])
     = Inl TypeError
   \<and> authorize example_rt
       (JObj [(''credentialSubject'',
                 JObj [(''taskLog'', JObj [(''action'', JObj [(''toString'', JStr ''x'')])])])])
     = Inl TypeError
   \<and> authorize example_rt (example_credential ''constructor'') = Inl TypeError"
  by (simp add: policy_defs example_defs)

text \<open>
  C6, amended. With the type, the credential subject, the action, \<^verbatim>\<open>issuedAt\<close> and
  the keys of the schema named as the functions read them, whatever the claims are and
  whatever they lack: the compliance check returns a result whenever the claims are not
  \<^verbatim>\<open>null\<close> or \<^verbatim>\<open>undefined\<close>, the type is an array or a string, a disallowed
  action can be converted to a string, a truthy \<^verbatim>\<open>issuedAt\<close> can be converted to a
  date, and the subject is an object or an array when the schema has keys;
  \<open>authorize\<close> returns a grant, authorized and expiring in 3600 seconds, whenever the
  claims are not \<^verbatim>\<open>null\<close> or \<^verbatim>\<open>undefined\<close> and the action converts to a string
  that names nothing inherited from \<^verbatim>\<open>Object.prototype\<close>. Neither returns on any
  other input, and what they throw then is a \<open>TypeError\<close>.
\<close>

theorem policy_engine_returns_on_present_claims:
  assumes types: "vcTypes =
      (if truthy (js_prop claims ''type'') then js_prop claims ''type''
       else if truthy (opt_get (js_prop claims ''vc'') ''type'')
       then opt_get (js_prop claims ''vc'') ''type''
       else JArr [])"
    and subject: "credentialSubject =
      (if truthy (js_prop claims ''credentialSubject'')
       then js_prop claims ''credentialSubject''
       else if truthy (opt_get (js_prop claims ''vc'') ''credentialSubject'')
       then opt_get (js_prop claims ''vc'') ''credentialSubject''
       else JObj [])"
    and action: "taskAction = opt_get (js_prop credentialSubject ''taskLog'') ''action''"
    and issued: "issuedAt = js_prop credentialSubject ''issuedAt''"
    and keys: "schemaKeys = (case requiredSchema of None \<Rightarrow> [] | Some entries \<Rightarrow> own_keys entries)"
  shows "((\<exists>r. checkPolicyCompliance pol rt claims requiredSchema = Inr r) \<longleftrightarrow>
            \<not> nullish claims
          \<and> (requiredVCTypes pol = [] \<or> (\<exists>ts. vcTypes = JArr ts) \<or> (\<exists>s. vcTypes = JStr s))
          \<and> (truthy taskAction \<and> taskAction \<notin> JStr ` set (allowedActions pol)
               \<longrightarrow> (\<exists>s. to_string rt taskAction = Inr s))
          \<and> (truthy issuedAt \<longrightarrow> (\<exists>time. date_time rt issuedAt = Inr time))
          \<and> (schemaKeys = [] \<or> (\<exists>kvs. credentialSubject = JObj kvs)
               \<or> (\<exists>xs. credentialSubject = JArr xs)))
       \<and> ((\<exists>g. authorize rt claims = Inr g) \<longleftrightarrow>
            \<not> nullish claims
          \<and> (\<exists>key. to_string rt taskAction = Inr key \<and> key \<notin> set object_prototype_keys))
       \<and> (\<forall>g. authorize rt claims = Inr g \<longrightarrow> authorized g \<and> expiresIn g = 3600)
       \<and> (\<forall>e. checkPolicyCompliance pol rt claims requiredSchema = Inl e
               \<or> authorize rt claims = Inl e \<longrightarrow> e = TypeError)"
proof (intro conjI)
  define returns where "returns \<longleftrightarrow>
            \<not> nullish claims
          \<and> (requiredVCTypes pol = [] \<or> (\<exists>ts. vcTypes = JArr ts) \<or> (\<exists>s. vcTypes = JStr s))
          \<and> (truthy taskAction \<and> taskAction \<notin> JStr ` set (allowedActions pol)
               \<longrightarrow> (\<exists>s. to_string rt taskAction = Inr s))
          \<and> (truthy issuedAt \<longrightarrow> (\<exists>time. date_time rt issuedAt = Inr time))
          \<and> (schemaKeys = [] \<or> (\<exists>kvs. credentialSubject = JObj kvs)
               \<or> (\<exists>xs. credentialSubject = JArr xs))"
  note c = compliance_closed_form
             [OF types subject action issued keys refl refl refl refl returns_def]
  have "(\<exists>r. checkPolicyCompliance pol rt claims requiredSchema = Inr r) \<longleftrightarrow> returns"
    unfolding c by (cases returns) simp_all
  then show "(\<exists>r. checkPolicyCompliance pol rt claims requiredSchema = Inr r) \<longleftrightarrow>
            \<not> nullish claims
          \<and> (requiredVCTypes pol = [] \<or> (\<exists>ts. vcTypes = JArr ts) \<or> (\<exists>s. vcTypes = JStr s))
          \<and> (truthy taskAction \<and> taskAction \<notin> JStr ` set (allowedActions pol)
               \<longrightarrow> (\<exists>s. to_string rt taskAction = Inr s))
          \<and> (truthy issuedAt \<longrightarrow> (\<exists>time. date_time rt issuedAt = Inr time))
          \<and> (schemaKeys = [] \<or> (\<exists>kvs. credentialSubject = JObj kvs)
               \<or> (\<exists>xs. credentialSubject = JArr xs))"
    unfolding returns_def .
  note a = authorize_closed_form [OF subject action, of rt]
  show "(\<exists>g. authorize rt claims = Inr g) \<longleftrightarrow>
            \<not> nullish claims
          \<and> (\<exists>key. to_string rt taskAction = Inr key \<and> key \<notin> set object_prototype_keys)"
    unfolding a by (cases "to_string rt taskAction") auto
  show "\<forall>g. authorize rt claims = Inr g \<longrightarrow> authorized g \<and> expiresIn g = 3600"
    unfolding a by (cases "to_string rt taskAction") (auto split: if_splits)
  show "\<forall>e. checkPolicyCompliance pol rt claims requiredSchema = Inl e
               \<or> authorize rt claims = Inl e \<longrightarrow> e = TypeError"
    using checkPolicyCompliance_TypeError authorize_TypeError by blast
qed

text \<open>
  Claims that are a number, and claims whose action is a number and whose
  \<^verbatim>\<open>issuedAt\<close> is a time in milliseconds: both functions return on them.
\<close>

theorem policy_engine_returns_on_present_claims_witness:
  "(\<exists>r. checkPolicyCompliance default_policies example_rt (JNum 5) None = Inr r)
   \<and> (\<exists>g. authorize example_rt (JNum 5) = Inr g)
   \<and> (\<exists>r. checkPolicyCompliance default_policies example_rt
            (JObj [(''credentialSubject'',
                      JObj [(''taskLog'', JObj [(''action'', JNum 7)]),
                            (''issuedAt'', JNum 1704067200000)])])
            None = Inr r)
   \<and> (\<exists>g. authorize example_rt
            (JObj [(''credentialSubject'',
                      JObj [(''taskLog'', JObj [(''action'', JNum 7)]),
                            (''issuedAt'', JNum 1704067200000)])]) = Inr g)
   \<and> \<not> (\<exists>r. checkPolicyCompliance default_policies example_rt JNull None = Inr r)"
proof (intro conjI)
  note t = policy_engine_returns_on_present_claims [OF refl refl refl refl refl]
  show "\<exists>r. checkPolicyCompliance default_policies example_rt (JNum 5) None = Inr r"
    by (rule t [THEN conjunct1, THEN iffD2]) (simp add: value_defs)
  show "\<exists>g. authorize example_rt (JNum 5) = Inr g"
    by (rule t [THEN conjunct2, THEN conjunct1, THEN iffD2]) (simp add: value_defs)
  show "\<exists>r. checkPolicyCompliance default_policies example_rt
            (JObj [(''credentialSubject'',
                      JObj [(''taskLog'', JObj [(''action'', JNum 7)]),
                            (''issuedAt'', JNum 1704067200000)])])
            None = Inr r"
    by (rule t [THEN conjunct1, THEN iffD2]) (simp add: value_defs show_nat.simps)
  show "\<exists>g. authorize example_rt
            (JObj [(''credentialSubject'',
                      JObj [(''taskLog'', JObj [(''action'', JNum 7)]),
                            (''issuedAt'', JNum 1704067200000)])]) = Inr g"
    by (rule t [THEN conjunct2, THEN conjunct1, THEN iffD2])
      (simp add: value_defs show_nat.simps)
  show "\<not> (\<exists>r. checkPolicyCompliance default_policies example_rt JNull None = Inr r)"
    unfolding t [where claims = JNull and requiredSchema = None, THEN conjunct1] by simp
qed

section \<open>The claims about the presentation and its credentials\<close>

text \<open>
  C9. Once the presentation is verified, the handler takes the first element of
  \<^verbatim>\<open>verifiablePresentation.verifiableCredential\<close> and decides on it alone: two
  verified presentations whose arrays begin with the same (truthy) credential get the
  same calls, the same verdict and the same token at the same clock, whatever else the
  arrays hold.
\<close>

theorem decision_depends_on_first_credential:
  assumes "verify p1 = Inr v1" and "verify p2 = Inr v2"
    and "truthy p1" and "truthy p2"
    and "opt_chain (get v1 ''verifiablePresentation'') ''verifiableCredential''
           = Inr (JArr (c # rest1))"
    and "opt_chain (get v2 ''verifiablePresentation'') ''verifiableCredential''
           = Inr (JArr (c # rest2))"
    and "truthy c"
  shows "credential_of v1 = Inr c \<and> credential_of v2 = Inr c
       \<and> authenticate verify pol rt p1 = authenticate verify pol rt p2"
proof -
  have c1: "credential_of v1 = Inr c" and c2: "credential_of v2 = Inr c"
    using assms(5-7) by (simp_all add: credential_of_def or_else_def)
  have "try_block (checkRevocationStatus rt) verify pol rt p1
          = try_block (checkRevocationStatus rt) verify pol rt p2"
    by (simp add: try_block_unfold assms(1,2) c1 c2)
  with assms(3,4) c1 c2 show ?thesis
    by (simp add: authenticate_def authenticate_with_def)
qed

lemma example_two_presentations:
  "(\<lambda>p. if p = JStr ''vp1''
         then Inr (example_verified [example_credential ''OrderPizza'',
                                     example_credential ''DeleteAccount''])
         else Inr (example_verified [example_credential ''OrderPizza''])) (JStr ''vp1'')
     = (Inr (example_verified [example_credential ''OrderPizza'',
                               example_credential ''DeleteAccount'']) :: string + jsval)"
  "(\<lambda>p. if p = JStr ''vp1''
         then Inr (example_verified [example_credential ''OrderPizza'',
                                     example_credential ''DeleteAccount''])
         else Inr (example_verified [example_credential ''OrderPizza''])) (JStr ''vp2'')
     = (Inr (example_verified [example_credential ''OrderPizza'']) :: string + jsval)"
  "truthy (JStr ''vp1'')" "truthy (JStr ''vp2'')"
  "opt_chain (get (example_verified [example_credential ''OrderPizza'',
                                     example_credential ''DeleteAccount''])
                ''verifiablePresentation'') ''verifiableCredential''
     = Inr (JArr (example_credential ''OrderPizza'' # [example_credential ''DeleteAccount'']))"
  "opt_chain (get (example_verified [example_credential ''OrderPizza''])
                ''verifiablePresentation'') ''verifiableCredential''
     = Inr (JArr (example_credential ''OrderPizza'' # []))"
  "truthy (example_credential ''OrderPizza'')"
  by (simp_all add: policy_defs example_defs)

theorem decision_depends_on_first_credential_witness:
  "authenticate
     (\<lambda>p. if p = JStr ''vp1''
          then Inr (example_verified [example_credential ''OrderPizza'',
                                      example_credential ''DeleteAccount''])
          else Inr (example_verified [example_credential ''OrderPizza'']))
     default_policies example_rt (JStr ''vp1'')
   = authenticate
       (\<lambda>p. if p = JStr ''vp1''
            then Inr (example_verified [example_credential ''OrderPizza'',
                                        example_credential ''DeleteAccount''])
            else Inr (example_verified [example_credential ''OrderPizza'']))
       default_policies example_rt (JStr ''vp2'')"
  using decision_depends_on_first_credential [OF example_two_presentations]
  by (rule conjunct2 [THEN conjunct2])

lemma verify_credentials_accepts:
  "verify_credentials env i cs = Inr vs \<Longrightarrow>
     vs = map cred_claims cs \<and> (\<forall>c \<in> set cs. credential_ok env c)"
proof (induction cs arbitrary: i vs)
  case Nil
  then show ?case by simp
next
  case (Cons c cs)
  from Cons.prems obtain key vs' where key: "resolve env (cred_issuer c) = Some key"
    and ok: "credentialSignatureOk env c key"
    and rest: "verify_credentials env (Suc i) cs = Inr vs'"
    and vs: "vs = cred_claims c # vs'"
    by (auto split: option.splits if_splits sum.splits)
  from Cons.IH [OF rest] key ok vs show ?case
    by (simp add: credential_ok_def)
qed

lemma verifyPresentation_spec_accepts:
  assumes "verifyPresentation_spec env token = Inr (h, vs)"
  shows "\<exists>p. parse env token = Some p \<and> h = pres_holder p
             \<and> vs = map cred_claims (pres_credentials p)
             \<and> (\<forall>c \<in> set (pres_credentials p). credential_ok env c)"
proof -
  from assms obtain p where p: "parse env token = Some p"
    and h: "h = pres_holder p"
    and vc: "verify_credentials env 0 (pres_credentials p) = Inr vs"
    by (auto simp: verifyPresentation_spec_def split: option.splits if_splits sum.splits)
  from verify_credentials_accepts [OF vc] p h show ?thesis by simp
qed

text \<open>
  C3. Against the verifier of the specification: when the signature of any embedded
  credential does not verify (or its issuer does not resolve), the verification fails
  as a whole and the handler answers with a rejection, 403 with the failure's message
  (401 when the token is falsy), having called nothing but the verifier. When the
  verification succeeds, the credentials it returns are those of all embedded
  credentials, every one of them verified: never a part of the list.
\<close>

theorem presentation_all_or_nothing:
  assumes "parse env token = Some p"
    and "c \<in> set (pres_credentials p)"
    and "\<not> credential_ok env c"
  shows "(\<exists>f. verifyPresentation_spec env token = Inl f
            \<and> authenticate (spec_verifier env) pol rt token
                = (if truthy token
                   then ([EvVerifyPresentation], Status403 (VerifyError (failure_message f)))
                   else ([], Status401)))
       \<and> (\<forall>token' h vs. verifyPresentation_spec env token' = Inr (h, vs) \<longrightarrow>
            (\<exists>p'. parse env token' = Some p'
                 \<and> vs = map cred_claims (pres_credentials p')
                 \<and> (\<forall>c' \<in> set (pres_credentials p'). credential_ok env c')))"
proof
  have "\<exists>f. verifyPresentation_spec env token = Inl f"
  proof (cases "verifyPresentation_spec env token")
    case (Inl f)
    then show ?thesis by blast
  next
    case (Inr res)
    obtain h vs where "res = (h, vs)" by (cases res)
    with Inr verifyPresentation_spec_accepts [of env token h vs] assms show ?thesis
      by auto
  qed
  then obtain f where f: "verifyPresentation_spec env token = Inl f" by blast
  then have "authenticate (spec_verifier env) pol rt token
                = (if truthy token
                   then ([EvVerifyPresentation], Status403 (VerifyError (failure_message f)))
                   else ([], Status401))"
    by (simp add: authenticate_def authenticate_with_def try_block_unfold spec_verifier_def)
  with f show "\<exists>f. verifyPresentation_spec env token = Inl f
            \<and> authenticate (spec_verifier env) pol rt token
                = (if truthy token
                   then ([EvVerifyPresentation], Status403 (VerifyError (failure_message f)))
                   else ([], Status401))"
    by blast
  show "\<forall>token' h vs. verifyPresentation_spec env token' = Inr (h, vs) \<longrightarrow>
            (\<exists>p'. parse env token' = Some p'
                 \<and> vs = map cred_claims (pres_credentials p')
                 \<and> (\<forall>c' \<in> set (pres_credentials p'). credential_ok env c'))"
    using verifyPresentation_spec_accepts by blast
qed

lemma example_bad_second_credential:
  "parse (example_env ''good'' ''forged'') (JStr ''vp'')
     = Some (example_presentation ''good'' ''forged'')"
  "\<lparr>cred_issuer = ''did:ethr:development:0x111'',
    cred_claims = example_credential ''QueryStatus'', cred_signature = ''forged''\<rparr>
     \<in> set (pres_credentials (example_presentation ''good'' ''forged''))"
  "\<not> credential_ok (example_env ''good'' ''forged'')
       \<lparr>cred_issuer = ''did:ethr:development:0x111'',
        cred_claims = example_credential ''QueryStatus'', cred_signature = ''forged''\<rparr>"
  by (simp_all add: example_env_def example_presentation_def credential_ok_def)

theorem presentation_all_or_nothing_witness:
  "verifyPresentation_spec (example_env ''good'' ''forged'') (JStr ''vp'')
     = Inl (InvalidCredentialSignature 1)
   \<and> authenticate (spec_verifier (example_env ''good'' ''forged''))
       default_policies example_rt (JStr ''vp'')
     = ([EvVerifyPresentation], Status403 (VerifyError ''InvalidCredentialSignature: 1''))"
proof -
  have v: "verifyPresentation_spec (example_env ''good'' ''forged'') (JStr ''vp'')
             = Inl (InvalidCredentialSignature 1)"
    by (simp add: verifyPresentation_spec_def example_env_def example_presentation_def)
  from presentation_all_or_nothing [OF example_bad_second_credential,
         of default_policies example_rt]
  obtain f where "verifyPresentation_spec (example_env ''good'' ''forged'') (JStr ''vp'') = Inl f"
    and "authenticate (spec_verifier (example_env ''good'' ''forged''))
           default_policies example_rt (JStr ''vp'')
         = (if truthy (JStr ''vp'')
            then ([EvVerifyPresentation], Status403 (VerifyError (failure_message f)))
            else ([], Status401))"
    by blast
  with v show ?thesis by (simp add: show_nat.simps)
qed

end
